theory Spec2Isabelle
  imports Complex_Main "HOL-Library.Multiset"
begin

section \<open>Data model\<close>

text \<open>
  The types below are the ones \<^verbatim>\<open>backend.cpp\<close> uses. Their declarations live in
  headers that are not among the sources (\<^verbatim>\<open>backend/backend.h\<close>,
  \<^verbatim>\<open>common/lightupdate.h\<close>, \<^verbatim>\<open>common/math.h\<close>), so every record lists exactly
  the members that \<^verbatim>\<open>backend.cpp\<close> reads or writes. Bounding boxes (\<open>'b\<close>), colours
  (\<open>'c\<close>), the private state of an effect (\<open>'e\<close>) and of a provider (\<open>'p\<close>) stay
  type parameters: the backend only moves them around.
\<close>

text \<open>
  \<^verbatim>\<open>ProviderType\<close> is an enumeration. \<^verbatim>\<open>backend.cpp\<close> names one enumerator,
  \<^verbatim>\<open>ProviderType::Hue\<close>; \<open>OtherProvider n\<close> stands for any further one.
\<close>

datatype ProviderType = Hue | OtherProvider nat

text \<open>
  The nine scalars of a transform, named as lines 240 to 248 name them; the members
  \<^verbatim>\<open>x\<close>, \<^verbatim>\<open>y\<close>, \<^verbatim>\<open>z\<close> of a vector are \<open>vecX\<close>, \<open>vecY\<close>, \<open>vecZ\<close> here. The scalars are
  real numbers: rounding is not modelled.
\<close>

record Vector3d =
  vecX :: real
  vecY :: real
  vecZ :: real

record Rotator =
  pitch :: real
  yaw :: real
  roll :: real

record Transform =
  location :: Vector3d
  scale :: Vector3d
  rotation :: Rotator

text \<open>
  A device is a polymorphic object; the three virtual methods the backend calls are
  the fields. \<open>GetLightBoundingBoxes\<close> takes the placement of the device.
\<close>

record 'b Device =
  GetUniqueId :: string
  GetType :: ProviderType
  GetLightBoundingBoxes :: "Transform \<Rightarrow> 'b list"

record 'b DeviceInScene =
  device :: "'b Device"
  transform :: Transform

text \<open>
  Modelled from the spec: \<^verbatim>\<open>DeviceInScene::GetLightBoundingBoxes()\<close> is declared in an
  absent header; the spec says the device is queried for its bounding boxes under the
  transform of the entry.
\<close>

definition boxesOf :: "'b DeviceInScene \<Rightarrow> 'b list" where
  "boxesOf d = GetLightBoundingBoxes (device d) (transform d)"

text \<open>
  The settings object that \<^verbatim>\<open>Save\<close> and \<^verbatim>\<open>Load\<close> hand to providers and effects: the
  stored pairs of a key and a variant, and the stack of open groups. Its operations
  follow further down.
\<close>

datatype QVariant = Invalid | QString string | QDouble real | QInt int

record QSettingsGroup =
  groupName :: string
  groupNum :: int
  groupMaxNum :: int

record QSettings =
  entries :: "(string \<times> QVariant) list"
  groupStack :: "QSettingsGroup list"

text \<open>
  An effect object: its private state, \<^verbatim>\<open>Tick(deltaTime)\<close>, which advances the state,
  and \<^verbatim>\<open>Update(boundingBoxes, colors)\<close>, which rewrites the colour buffer (and may
  touch the state). \<^verbatim>\<open>Save(settings)\<close> writes the effect below the current group of
  the settings object. A scene holds its effects by pointer; whether the copy of a
  scene shares them with the original is decided by a declaration that is not among
  the sources, and no property below depends on it.
\<close>

record ('b, 'c, 'e) Effect =
  effectState :: 'e
  Tick :: "real \<Rightarrow> 'e \<Rightarrow> 'e"
  Update :: "'e \<Rightarrow> 'b list \<Rightarrow> 'c list \<Rightarrow> 'e \<times> 'c list"
  SaveEffect :: "'e \<Rightarrow> QSettings \<Rightarrow> QSettings"

record ('b, 'c, 'e) Scene =
  devicesInScene :: "'b DeviceInScene list"
  effects :: "('b, 'c, 'e) Effect list"

definition emptyScene :: "('b, 'c, 'e) Scene" where
  "emptyScene = \<lparr>devicesInScene = [], effects = []\<rparr>"

text \<open>
  An iterator into one of the three flat buffers is a position; a value-initialised
  iterator is \<open>Singular\<close> (two of them compare equal, and neither points anywhere).
\<close>

datatype Cursor = Singular | At nat

fun incr :: "Cursor \<Rightarrow> Cursor" where
  "incr (At i) = At (Suc i)"
| "incr Singular = Singular"

record LightUpdateParams =
  boundingBoxesDirty :: bool
  colorsDirty :: bool
  devicesDirty :: bool
  colorsBegin :: Cursor
  colorsEnd :: Cursor
  devicesBegin :: Cursor
  devicesEnd :: Cursor
  boundingBoxesBegin :: Cursor
  boundingBoxesEnd :: Cursor

text \<open>
  What \<^verbatim>\<open>lightUpdates[key]\<close> inserts for a missing key: a value-initialised
  \<^verbatim>\<open>LightUpdateParams\<close>. All six iterators are singular. The flags are taken as
  \<open>False\<close>; the properties below are about the cursors and hold whatever the flags
  of a fresh entry are.
\<close>

definition valueInitParams :: LightUpdateParams where
  "valueInitParams =
     \<lparr>boundingBoxesDirty = False, colorsDirty = False, devicesDirty = False,
      colorsBegin = Singular, colorsEnd = Singular,
      devicesBegin = Singular, devicesEnd = Singular,
      boundingBoxesBegin = Singular, boundingBoxesEnd = Singular\<rparr>"

text \<open>
  A provider object. \<^verbatim>\<open>compare\<close>, \<^verbatim>\<open>GetDeviceFromUniqueId\<close>, \<^verbatim>\<open>Save\<close> and \<^verbatim>\<open>Load\<close>
  are functions of its private state; \<^verbatim>\<open>Start\<close>, \<^verbatim>\<open>Stop\<close> and \<^verbatim>\<open>Update\<close> act on
  the outside world and are recorded as calls.
\<close>

record ('b, 'p) DeviceProvider =
  providerState :: 'p
  compareInProvider :: "'p \<Rightarrow> 'b DeviceInScene \<Rightarrow> 'b DeviceInScene \<Rightarrow> bool"
  GetDeviceFromUniqueId :: "'p \<Rightarrow> string \<Rightarrow> 'b Device option"
  SaveProvider :: "'p \<Rightarrow> QSettings \<Rightarrow> QSettings"
  LoadProvider :: "'p \<Rightarrow> QSettings \<Rightarrow> 'p"

datatype Call =
    DeviceQuery string
  | ProviderStart ProviderType
  | ProviderStop ProviderType
  | ProviderUpdate ProviderType LightUpdateParams

text \<open>
  Dereferencing a null \<^verbatim>\<open>unique_ptr<DeviceProvider>\<close> ends the process, and so may
  an iterator that \<^verbatim>\<open>std::sort\<close> moves off the list when the comparator is not a
  strict weak ordering; the model returns the fault instead.
\<close>

datatype Fault = NullProvider ProviderType | OutOfRange

text \<open>
  The locals of the scheduling thread (lines 49 to 54), which live as long as the
  thread does.
\<close>

record ('b, 'c, 'e) Render =
  renderScene :: "('b, 'c, 'e) Scene"
  lightUpdates :: "ProviderType \<rightharpoonup> LightUpdateParams"
  colors :: "'c list"
  boundingBoxes :: "'b list"
  devices :: "'b Device list"

text \<open>
  The members of \<^verbatim>\<open>Backend\<close>. \<open>thread\<close> is \<open>Some\<close> of the thread's locals exactly
  when the \<^verbatim>\<open>std::thread\<close> is joinable. \<open>activeSceneIndex\<close> is an \<^verbatim>\<open>int\<close> (line 64
  copies it into one). \<open>deviceProviders\<close> keeps the iteration order of the container;
  \<open>None\<close> is a null pointer. The mutex is not modelled: every operation below is one
  atomic step.
\<close>

record ('b, 'c, 'e, 'p) Backend =
  stopRequested :: bool
  thread :: "('b, 'c, 'e) Render option"
  scenes :: "('b, 'c, 'e) Scene list"
  activeSceneIndex :: int
  scenesAreDirty :: bool
  deviceProviders :: "(ProviderType \<times> ('b, 'p) DeviceProvider option) list"

text \<open>
  What \<^verbatim>\<open>backend.cpp\<close> calls but does not define: \<^verbatim>\<open>std::sort\<close> (a comparator that
  dereferences a null provider faults, so comparator and sort return in the fault
  monad), the free function \<^verbatim>\<open>compare(DevicePtr, DevicePtr)\<close>, the colour that
  \<^verbatim>\<open>colors.resize\<close> appends, \<^verbatim>\<open>Device::GetProviderTypeFromUniqueId\<close>,
  \<^verbatim>\<open>Effect::StaticLoad\<close>, and the text Qt prints for a double (its digits depend on
  the binary format of the number, which is not modelled).
\<close>

record ('b, 'c, 'e) Env =
  std_sort :: "('b DeviceInScene \<Rightarrow> 'b DeviceInScene \<Rightarrow> Fault + bool)
                 \<Rightarrow> 'b DeviceInScene list \<Rightarrow> Fault + 'b DeviceInScene list"
  compareDevices :: "'b Device \<Rightarrow> 'b Device \<Rightarrow> bool"
  defaultColor :: 'c
  GetProviderTypeFromUniqueId :: "string \<Rightarrow> ProviderType"
  StaticLoad :: "QSettings \<Rightarrow> ('b, 'c, 'e) Effect"
  doubleToString :: "real \<Rightarrow> string"

text \<open>
  Lines 16 to 26: a new backend is idle, has no scene, and registers the Hue provider
  (\<^verbatim>\<open>Hue::Provider\<close> is defined elsewhere and passed in).
\<close>

definition newBackend :: "('b, 'p) DeviceProvider \<Rightarrow> ('b, 'c, 'e, 'p) Backend" where
  "newBackend hueProvider =
     \<lparr>stopRequested = False, thread = None, scenes = [], activeSceneIndex = 0,
      scenesAreDirty = False, deviceProviders = [(Hue, Some hueProvider)]\<rparr>"

section \<open>The tick of the scheduling thread\<close>

text \<open>
  Lines 49 and 65: \<^verbatim>\<open>scenes.size() > index ? scenes[index] : Scene()\<close>. The index is an
  \<^verbatim>\<open>int\<close>; the comparison and the subscript convert it to \<^verbatim>\<open>size_t\<close>, that is
  modulo \<open>2 ^ 64\<close>.
\<close>

definition sceneAt :: "('b, 'c, 'e) Scene list \<Rightarrow> int \<Rightarrow> ('b, 'c, 'e) Scene" where
  "sceneAt ss index =
     (let u = nat (index mod 2 ^ 64)
      in if length ss > u then ss ! u else emptyScene)"

text \<open>Lines 70 to 79: the comparator handed to \<^verbatim>\<open>std::sort\<close>.\<close>

definition sortLambda ::
  "('b, 'c, 'e) Env \<Rightarrow> (ProviderType \<times> ('b, 'p) DeviceProvider option) list
     \<Rightarrow> 'b DeviceInScene \<Rightarrow> 'b DeviceInScene \<Rightarrow> Fault + bool" where
  "sortLambda env dps a b =
     (if GetType (device a) = GetType (device b)
      then (case map_of dps (GetType (device a)) of
              Some (Some p) \<Rightarrow> Inr (compareInProvider p (providerState p) a b)
            | _ \<Rightarrow> Inl (NullProvider (GetType (device a))))
      else Inr (compareDevices env (device a) (device b)))"

text \<open>Lines 83 to 93: the buffers are cleared, then every device appends its boxes.\<close>

fun flattenLoop ::
  "'b DeviceInScene list \<Rightarrow> 'b list \<Rightarrow> 'b Device list \<Rightarrow> Call list
     \<Rightarrow> 'b list \<times> 'b Device list \<times> Call list" where
  "flattenLoop [] boxes devs calls = (boxes, devs, calls)"
| "flattenLoop (d # ds) boxes devs calls =
     (let boxesToAppend = boxesOf d;
          devicesToAppend = replicate (length boxesToAppend) (device d)
      in flattenLoop ds (boxes @ boxesToAppend) (devs @ devicesToAppend)
           (calls @ [DeviceQuery (GetUniqueId (device d))]))"

text \<open>Line 97: \<^verbatim>\<open>colors.resize(n)\<close> truncates or appends value-initialised colours.\<close>

definition resize :: "nat \<Rightarrow> 'c \<Rightarrow> 'c list \<Rightarrow> 'c list" where
  "resize n c xs = take n xs @ replicate (n - length xs) c"

text \<open>
  Lines 110 to 115: advance the three begin cursors to the first device of the
  provider's type. The cursor starts at \<^verbatim>\<open>devices.begin()\<close>, so
  \<^verbatim>\<open>!= devices.end()\<close> is \<open>i < length devs\<close>.
\<close>

function advanceBegin ::
  "'b Device list \<Rightarrow> ProviderType \<Rightarrow> LightUpdateParams \<Rightarrow> LightUpdateParams" where
  "advanceBegin devs t update =
     (case devicesBegin update of
        At i \<Rightarrow>
          (if i < length devs \<and> GetType (devs ! i) \<noteq> t
           then advanceBegin devs t
                  (update\<lparr>colorsBegin := incr (colorsBegin update),
                          devicesBegin := incr (devicesBegin update),
                          boundingBoxesBegin := incr (boundingBoxesBegin update)\<rparr>)
           else update)
      | Singular \<Rightarrow> update)"
  by pat_completeness auto
termination
  by (relation "measure (\<lambda>(devs, t, update).
        length devs - (case devicesBegin update of At i \<Rightarrow> i | Singular \<Rightarrow> 0))") auto

declare advanceBegin.simps [simp del]

text \<open>Lines 121 to 126: advance the three end cursors past the devices of that type.\<close>

function advanceEnd ::
  "'b Device list \<Rightarrow> ProviderType \<Rightarrow> LightUpdateParams \<Rightarrow> LightUpdateParams" where
  "advanceEnd devs t update =
     (case devicesEnd update of
        At i \<Rightarrow>
          (if i < length devs \<and> GetType (devs ! i) = t
           then advanceEnd devs t
                  (update\<lparr>colorsEnd := incr (colorsEnd update),
                          devicesEnd := incr (devicesEnd update),
                          boundingBoxesEnd := incr (boundingBoxesEnd update)\<rparr>)
           else update)
      | Singular \<Rightarrow> update)"
  by pat_completeness auto
termination
  by (relation "measure (\<lambda>(devs, t, update).
        length devs - (case devicesEnd update of At i \<Rightarrow> i | Singular \<Rightarrow> 0))") auto

declare advanceEnd.simps [simp del]

text \<open>Lines 102 to 126: what the body of the partition loop does to its \<open>update\<close>.\<close>

definition partitionRange ::
  "'b Device list \<Rightarrow> ProviderType \<Rightarrow> LightUpdateParams \<Rightarrow> LightUpdateParams" where
  "partitionRange devs t update0 =
     (let update1 = update0\<lparr>boundingBoxesDirty := True, colorsDirty := True,
                            devicesDirty := True,
                            colorsBegin := At 0, devicesBegin := At 0,
                            boundingBoxesBegin := At 0\<rparr>;
          update2 = advanceBegin devs t update1;
          update3 = update2\<lparr>colorsEnd := colorsBegin update2,
                            devicesEnd := devicesBegin update2,
                            boundingBoxesEnd := boundingBoxesBegin update2\<rparr>
      in advanceEnd devs t update3)"

text \<open>
  \<^verbatim>\<open>lightUpdates[key]\<close> on the \<^verbatim>\<open>unordered_map\<close>: a missing key is inserted with a
  value-initialised entry.
\<close>

definition subscript ::
  "(ProviderType \<rightharpoonup> LightUpdateParams) \<Rightarrow> ProviderType
     \<Rightarrow> (ProviderType \<rightharpoonup> LightUpdateParams) \<times> LightUpdateParams" where
  "subscript lu t =
     (case lu t of
        Some u \<Rightarrow> (lu, u)
      | None \<Rightarrow> (lu(t \<mapsto> valueInitParams), valueInitParams))"

text \<open>
  Lines 99 to 127. Line 101 is \<^verbatim>\<open>auto update = lightUpdates[dp.first];\<close>: \<open>update\<close> is a
  copy of the map's entry, and nothing writes it back, so the loop leaves in the map
  only what the subscript inserted.
\<close>

fun partitionLoop ::
  "'b Device list \<Rightarrow> (ProviderType \<times> 'x) list \<Rightarrow> (ProviderType \<rightharpoonup> LightUpdateParams)
     \<Rightarrow> (ProviderType \<rightharpoonup> LightUpdateParams)" where
  "partitionLoop devs [] lu = lu"
| "partitionLoop devs (dp # dps) lu =
     (let (lu1, update0) = subscript lu (fst dp);
          update = partitionRange devs (fst dp) update0
      in partitionLoop devs dps lu1)"

text \<open>Lines 60 to 128: the block guarded by \<^verbatim>\<open>scenesAreDirty\<close>.\<close>

definition refresh ::
  "('b, 'c, 'e) Env \<Rightarrow> ('b, 'c, 'e, 'p) Backend \<Rightarrow> ('b, 'c, 'e) Render
     \<Rightarrow> Fault + (('b, 'c, 'e) Render \<times> Call list)" where
  "refresh env b r =
     (let updateThreadSceneIndex = activeSceneIndex b;
          copied = sceneAt (scenes b) updateThreadSceneIndex
      in case std_sort env (sortLambda env (deviceProviders b)) (devicesInScene copied) of
           Inl fault \<Rightarrow> Inl fault
         | Inr sortedDevices \<Rightarrow>
             (let (boxes, devs, calls) = flattenLoop sortedDevices [] [] []
              in Inr (r\<lparr>renderScene := copied\<lparr>devicesInScene := sortedDevices\<rparr>,
                        lightUpdates := partitionLoop devs (deviceProviders b) (lightUpdates r),
                        colors := resize (length boxes) (defaultColor env) (colors r),
                        boundingBoxes := boxes,
                        devices := devs\<rparr>, calls)))"

text \<open>Lines 131 to 135: every effect, in scene order, on the shared buffers.\<close>

fun runEffects ::
  "real \<Rightarrow> 'b list \<Rightarrow> ('b, 'c, 'e) Effect list \<Rightarrow> 'c list
     \<Rightarrow> ('b, 'c, 'e) Effect list \<times> 'c list" where
  "runEffects deltaTime boxes [] cols = ([], cols)"
| "runEffects deltaTime boxes (effect # rest) cols =
     (let s1 = Tick effect deltaTime (effectState effect);
          (s2, cols1) = Update effect s1 boxes cols;
          (rest1, cols2) = runEffects deltaTime boxes rest cols1
      in (effect\<lparr>effectState := s2\<rparr> # rest1, cols2))"

text \<open>Lines 138 to 141: every registry entry is dereferenced and handed its entry.\<close>

fun dispatch ::
  "(ProviderType \<times> ('b, 'p) DeviceProvider option) list \<Rightarrow> (ProviderType \<rightharpoonup> LightUpdateParams)
     \<Rightarrow> Fault + ((ProviderType \<rightharpoonup> LightUpdateParams) \<times> Call list)" where
  "dispatch [] lu = Inr (lu, [])"
| "dispatch ((t, None) # dps) lu = Inl (NullProvider t)"
| "dispatch ((t, Some p) # dps) lu =
     (let (lu1, params) = subscript lu t
      in case dispatch dps lu1 of
           Inl fault \<Rightarrow> Inl fault
         | Inr (lu2, calls) \<Rightarrow> Inr (lu2, ProviderUpdate t params # calls))"

text \<open>
  Lines 56 to 144. The tick reads the backend and never writes it: in particular
  \<^verbatim>\<open>scenesAreDirty\<close> is read on line 60 and assigned nowhere in the thread.
\<close>

definition tick ::
  "('b, 'c, 'e) Env \<Rightarrow> ('b, 'c, 'e, 'p) Backend \<Rightarrow> ('b, 'c, 'e) Render \<Rightarrow> real
     \<Rightarrow> Fault + (('b, 'c, 'e) Render \<times> Call list)" where
  "tick env b r deltaTime =
     (case (if scenesAreDirty b then refresh env b r else Inr (r, [])) of
        Inl fault \<Rightarrow> Inl fault
      | Inr (r1, calls1) \<Rightarrow>
          (let (effects1, colors1) =
                 runEffects deltaTime (boundingBoxes r1) (effects (renderScene r1)) (colors r1);
               r2 = r1\<lparr>renderScene := (renderScene r1)\<lparr>effects := effects1\<rparr>,
                       colors := colors1\<rparr>
           in case dispatch (deviceProviders b) (lightUpdates r2) of
                Inl fault \<Rightarrow> Inl fault
              | Inr (lu, calls2) \<Rightarrow> Inr (r2\<lparr>lightUpdates := lu\<rparr>, calls1 @ calls2)))"

text \<open>
  Lines 146 to 163: the loop of the thread calls \<open>tick\<close> until it reads
  \<^verbatim>\<open>stopRequested\<close>. The backend is the same at every iteration unless another thread
  writes it in between; \<open>runTicks\<close> is a run of the loop during which none does, one
  \<open>deltaTime\<close> per iteration, and it keeps the calls of each iteration apart.
\<close>

fun runTicks ::
  "('b, 'c, 'e) Env \<Rightarrow> ('b, 'c, 'e, 'p) Backend \<Rightarrow> ('b, 'c, 'e) Render \<Rightarrow> real list
     \<Rightarrow> Fault + (('b, 'c, 'e) Render \<times> Call list list)" where
  "runTicks env b r [] = Inr (r, [])"
| "runTicks env b r (deltaTime # rest) =
     (case tick env b r deltaTime of
        Inl fault \<Rightarrow> Inl fault
      | Inr (r1, calls) \<Rightarrow>
          (case runTicks env b r1 rest of
             Inl fault \<Rightarrow> Inl fault
           | Inr (r2, later) \<Rightarrow> Inr (r2, calls # later)))"

section \<open>Start, IsRunning, Stop\<close>

fun startProviders ::
  "(ProviderType \<times> ('b, 'p) DeviceProvider option) list \<Rightarrow> Fault + Call list" where
  "startProviders [] = Inr []"
| "startProviders ((t, None) # dps) = Inl (NullProvider t)"
| "startProviders ((t, Some p) # dps) =
     (case startProviders dps of
        Inl fault \<Rightarrow> Inl fault
      | Inr calls \<Rightarrow> Inr (ProviderStart t # calls))"

fun stopProviders ::
  "(ProviderType \<times> ('b, 'p) DeviceProvider option) list \<Rightarrow> Fault + Call list" where
  "stopProviders [] = Inr []"
| "stopProviders ((t, None) # dps) = Inl (NullProvider t)"
| "stopProviders ((t, Some p) # dps) =
     (case stopProviders dps of
        Inl fault \<Rightarrow> Inl fault
      | Inr calls \<Rightarrow> Inr (ProviderStop t # calls))"

text \<open>Lines 167 to 170: \<^verbatim>\<open>thread.joinable()\<close>.\<close>

definition IsRunning :: "('b, 'c, 'e, 'p) Backend \<Rightarrow> bool" where
  "IsRunning b = (thread b \<noteq> None)"

text \<open>
  Lines 33 to 54: the new thread starts with a snapshot of the active scene, an empty
  \<^verbatim>\<open>lightUpdates\<close> and three empty buffers.
\<close>

definition Start ::
  "('b, 'c, 'e, 'p) Backend \<Rightarrow> Fault + (('b, 'c, 'e, 'p) Backend \<times> Call list)" where
  "Start b =
     (if IsRunning b then Inr (b, [])
      else case startProviders (deviceProviders b) of
             Inl fault \<Rightarrow> Inl fault
           | Inr calls \<Rightarrow>
               Inr (b\<lparr>stopRequested := False,
                      thread := Some \<lparr>renderScene = sceneAt (scenes b) (activeSceneIndex b),
                                      lightUpdates = Map.empty,
                                      colors = [], boundingBoxes = [], devices = []\<rparr>\<rparr>,
                    calls))"

text \<open>
  Lines 172 to 185: after \<^verbatim>\<open>thread.join()\<close> the thread is no longer joinable. The ticks
  the thread still runs before it reads the flag are iterations of \<open>runTicks\<close>, not part
  of \<open>Stop\<close>.
\<close>

definition Stop ::
  "('b, 'c, 'e, 'p) Backend \<Rightarrow> Fault + (('b, 'c, 'e, 'p) Backend \<times> Call list)" where
  "Stop b =
     (if \<not> IsRunning b then Inr (b, [])
      else case stopProviders (deviceProviders b) of
             Inl fault \<Rightarrow> Inl fault
           | Inr calls \<Rightarrow> Inr (b\<lparr>stopRequested := True, thread := None\<rparr>, calls))"

section \<open>The settings store\<close>

text \<open>
  \<^verbatim>\<open>QSettings\<close> is Qt's; the model follows its documented behaviour. The store is a
  list of pairs of a full key and a variant, with no key twice; it is read through
  \<open>map_of\<close> only, so the order of the pairs carries no meaning. The object keeps a
  stack of open groups (the head is the innermost); a key is resolved below the names
  of the open groups, an array group with a current index contributing
  \<^verbatim>\<open>name/index\<close>, the index counted from 1 and written in decimal. The group names of
  this program are not empty.
\<close>

definition digitChar :: "nat \<Rightarrow> char" where
  "digitChar d = ''0123456789'' ! d"

function showNat :: "nat \<Rightarrow> string" where
  "showNat n = (if n < 10 then [digitChar n] else showNat (n div 10) @ [digitChar (n mod 10)])"
  by pat_completeness auto
termination
  by (relation "measure id") auto

declare showNat.simps [simp del]

text \<open>
  The conversions of \<^verbatim>\<open>QVariant\<close>. A store that was written in this process holds
  the variants as \<^verbatim>\<open>setValue\<close> received them; a store read back from a file holds
  text. \<^verbatim>\<open>toInt\<close> reads a text as \<^verbatim>\<open>QString::toLongLong\<close> does (blanks around an
  optionally signed decimal number, 0 when the text is no such number or does not fit
  64 bits) and a double through \<^verbatim>\<open>qRound64\<close>, and cuts the result to 32 bits;
  \<^verbatim>\<open>toDouble\<close> reads a text as a decimal number with an optional fraction and
  exponent, 0 when the text is none. The value of a text is taken as a real number:
  neither the rounding to a double nor the texts that name an infinity or a NaN are
  modelled.
\<close>

definition isSpace :: "char \<Rightarrow> bool" where
  "isSpace c =
     (c \<in> set [CHR '' '', CHR 0x09, CHR 0x0A, CHR 0x0B, CHR 0x0C, CHR 0x0D, CHR 0x85, CHR 0xA0])"

definition trimmed :: "string \<Rightarrow> string" where
  "trimmed s = rev (dropWhile isSpace (rev (dropWhile isSpace s)))"

definition isDigit :: "char \<Rightarrow> bool" where
  "isDigit c = (c \<in> set ''0123456789'')"

fun digitsValue :: "nat \<Rightarrow> string \<Rightarrow> nat option" where
  "digitsValue n [] = Some n"
| "digitsValue n (c # cs) =
     (if isDigit c then digitsValue (10 * n + (of_char c - 48)) cs else None)"

definition parseNat :: "string \<Rightarrow> nat option" where
  "parseNat s = (if s = [] then None else digitsValue 0 s)"

definition parseInteger :: "string \<Rightarrow> int option" where
  "parseInteger s =
     (case s of
        [] \<Rightarrow> None
      | c # cs \<Rightarrow>
          if c = CHR ''-'' then map_option (\<lambda>n. - int n) (parseNat cs)
          else if c = CHR ''+'' then map_option int (parseNat cs)
          else map_option int (parseNat s))"

text \<open>
  The mantissa \<^verbatim>\<open>digits[.digits]\<close> with at least one digit, then the exponent
  \<^verbatim>\<open>e[sign]digits\<close> if there is one.
\<close>

definition parseMantissa :: "string \<Rightarrow> real option" where
  "parseMantissa s =
     (let whole = takeWhile isDigit s;
          rest = dropWhile isDigit s;
          fraction = (case rest of c # cs \<Rightarrow> if c = CHR ''.'' then cs else [] | [] \<Rightarrow> [])
      in if (rest = [] \<or> hd rest = CHR ''.'') \<and> whole @ fraction \<noteq> []
         then map_option (\<lambda>n. real n / 10 ^ length fraction) (digitsValue 0 (whole @ fraction))
         else None)"

definition parseUnsigned :: "string \<Rightarrow> real option" where
  "parseUnsigned s =
     (let mantissa = takeWhile (\<lambda>c. c \<noteq> CHR ''e'' \<and> c \<noteq> CHR ''E'') s;
          rest = dropWhile (\<lambda>c. c \<noteq> CHR ''e'' \<and> c \<noteq> CHR ''E'') s
      in case rest of
           [] \<Rightarrow> parseMantissa mantissa
         | c # exponent \<Rightarrow>
             (case (parseMantissa mantissa, parseInteger exponent) of
                (Some m, Some k) \<Rightarrow>
                  Some (if 0 \<le> k then m * 10 ^ nat k else m / 10 ^ nat (- k))
              | _ \<Rightarrow> None))"

definition parseDouble :: "string \<Rightarrow> real option" where
  "parseDouble s =
     (case s of
        [] \<Rightarrow> None
      | c # cs \<Rightarrow>
          if c = CHR ''-'' then map_option uminus (parseUnsigned cs)
          else if c = CHR ''+'' then parseUnsigned cs
          else parseUnsigned s)"

text \<open>A 64-bit integer cut to an \<^verbatim>\<open>int\<close>.\<close>

definition truncateToInt :: "int \<Rightarrow> int" where
  "truncateToInt n = (n + 2 ^ 31) mod 2 ^ 32 - 2 ^ 31"

fun toInt :: "QVariant \<Rightarrow> int" where
  "toInt (QInt i) = i"
| "toInt (QDouble r) = truncateToInt \<lfloor>r + 1 / 2\<rfloor>"
| "toInt (QString s) =
     (case parseInteger (trimmed s) of
        Some n \<Rightarrow> if - (2 ^ 63) \<le> n \<and> n < 2 ^ 63 then truncateToInt n else 0
      | None \<Rightarrow> 0)"
| "toInt Invalid = 0"

fun toDouble :: "QVariant \<Rightarrow> real" where
  "toDouble (QDouble r) = r"
| "toDouble (QInt i) = of_int i"
| "toDouble (QString s) = (case parseDouble (trimmed s) of Some r \<Rightarrow> r | None \<Rightarrow> 0)"
| "toDouble Invalid = 0"

fun toString :: "('b, 'c, 'e) Env \<Rightarrow> QVariant \<Rightarrow> string" where
  "toString env (QString s) = s"
| "toString env (QInt i) = (if i < 0 then ''-'' @ showNat (nat (- i)) else showNat (nat i))"
| "toString env (QDouble r) = doubleToString env r"
| "toString env Invalid = []"

definition groupToString :: "QSettingsGroup \<Rightarrow> string" where
  "groupToString g =
     (if groupNum g > 0 then groupName g @ ''/'' @ showNat (nat (groupNum g)) else groupName g)"

definition groupPrefix :: "QSettings \<Rightarrow> string" where
  "groupPrefix s = concat (map (\<lambda>g. groupToString g @ ''/'') (rev (groupStack s)))"

definition actualKey :: "QSettings \<Rightarrow> string \<Rightarrow> string" where
  "actualKey s k = groupPrefix s @ k"

fun updateEntry ::
  "string \<Rightarrow> QVariant \<Rightarrow> (string \<times> QVariant) list \<Rightarrow> (string \<times> QVariant) list" where
  "updateEntry k v [] = [(k, v)]"
| "updateEntry k v (entry # rest) =
     (if fst entry = k then (k, v) # rest else entry # updateEntry k v rest)"

definition setValue :: "string \<Rightarrow> QVariant \<Rightarrow> QSettings \<Rightarrow> QSettings" where
  "setValue k v s = s\<lparr>entries := updateEntry (actualKey s k) v (entries s)\<rparr>"

definition valueOf :: "QSettings \<Rightarrow> string \<Rightarrow> QVariant" where
  "valueOf s k = (case map_of (entries s) (actualKey s k) of Some v \<Rightarrow> v | None \<Rightarrow> Invalid)"

text \<open>\<^verbatim>\<open>remove(key)\<close> removes the key and everything below it.\<close>

definition remove :: "string \<Rightarrow> QSettings \<Rightarrow> QSettings" where
  "remove k s =
     (let full = actualKey s k
      in s\<lparr>entries :=
             filter (\<lambda>entry. \<not> (fst entry = full \<or>
                                  take (length full + 1) (fst entry) = full @ ''/''))
               (entries s)\<rparr>)"

definition clear :: "QSettings \<Rightarrow> QSettings" where
  "clear s = s\<lparr>entries := []\<rparr>"

text \<open>
  \<^verbatim>\<open>beginWriteArray(prefix)\<close> with the default size \<^verbatim>\<open>-1\<close> opens an array group that
  tracks the largest index set, and removes a stale \<^verbatim>\<open>size\<close>; \<^verbatim>\<open>beginReadArray\<close>
  opens one that does not track, and returns the stored \<^verbatim>\<open>size\<close>. \<^verbatim>\<open>endArray\<close> closes
  the group and, for a tracking group, writes \<^verbatim>\<open>name/size\<close>.
\<close>

definition beginWriteArray :: "string \<Rightarrow> QSettings \<Rightarrow> QSettings" where
  "beginWriteArray prefix s =
     remove ''size''
       (s\<lparr>groupStack := \<lparr>groupName = prefix, groupNum = 0, groupMaxNum = 0\<rparr> # groupStack s\<rparr>)"

definition beginReadArray :: "string \<Rightarrow> QSettings \<Rightarrow> int \<times> QSettings" where
  "beginReadArray prefix s =
     (let s1 = s\<lparr>groupStack :=
                   \<lparr>groupName = prefix, groupNum = 0, groupMaxNum = - 1\<rparr> # groupStack s\<rparr>
      in (toInt (valueOf s1 ''size''), s1))"

definition setArrayIndex :: "int \<Rightarrow> QSettings \<Rightarrow> QSettings" where
  "setArrayIndex i s =
     (case groupStack s of
        [] \<Rightarrow> s
      | topGroup # rest \<Rightarrow>
          if groupNum topGroup = - 1 then s
          else (let n = max i 0 + 1
                in s\<lparr>groupStack :=
                       topGroup\<lparr>groupNum := n,
                           groupMaxNum := (if groupMaxNum topGroup \<noteq> - 1 \<and> groupMaxNum topGroup < n
                                           then n else groupMaxNum topGroup)\<rparr> # rest\<rparr>))"

definition endArray :: "QSettings \<Rightarrow> QSettings" where
  "endArray s =
     (case groupStack s of
        [] \<Rightarrow> s
      | closing # rest \<Rightarrow>
          (let s1 = s\<lparr>groupStack := rest\<rparr>
           in if groupMaxNum closing \<noteq> - 1
              then setValue (groupName closing @ ''/size'') (QInt (groupMaxNum closing)) s1
              else s1))"

section \<open>Save\<close>

text \<open>Lines 209 to 212: every registry entry is dereferenced and saves itself.\<close>

fun saveProviders ::
  "(ProviderType \<times> ('b, 'p) DeviceProvider option) list \<Rightarrow> QSettings \<Rightarrow> Fault + QSettings" where
  "saveProviders [] settings = Inr settings"
| "saveProviders ((t, None) # dps) settings = Inl (NullProvider t)"
| "saveProviders ((t, Some p) # dps) settings =
     saveProviders dps (SaveProvider p (providerState p) settings)"

text \<open>Lines 225 to 230, with the counter \<open>j\<close> of the loop.\<close>

fun saveEffects :: "('b, 'c, 'e) Effect list \<Rightarrow> int \<Rightarrow> QSettings \<Rightarrow> QSettings" where
  "saveEffects [] j settings = settings"
| "saveEffects (effect # rest) j settings =
     saveEffects rest (j + 1) (SaveEffect effect (effectState effect) (setArrayIndex j settings))"

text \<open>
  Lines 238 to 248, in the order of the source: the key \<^verbatim>\<open>t.y\<close> is written twice,
  first with \<^verbatim>\<open>location.y\<close> and then with \<^verbatim>\<open>rotation.yaw\<close>.
\<close>

definition saveDevice :: "'b DeviceInScene \<Rightarrow> QSettings \<Rightarrow> QSettings" where
  "saveDevice d settings =
     (let s1 = setValue ''id'' (QString (GetUniqueId (device d))) settings;
          s2 = setValue ''t.x'' (QDouble (vecX (location (transform d)))) s1;
          s3 = setValue ''t.y'' (QDouble (vecY (location (transform d)))) s2;
          s4 = setValue ''t.z'' (QDouble (vecZ (location (transform d)))) s3;
          s5 = setValue ''t.sx'' (QDouble (vecX (scale (transform d)))) s4;
          s6 = setValue ''t.sy'' (QDouble (vecY (scale (transform d)))) s5;
          s7 = setValue ''t.sz'' (QDouble (vecZ (scale (transform d)))) s6;
          s8 = setValue ''t.p'' (QDouble (pitch (rotation (transform d)))) s7;
          s9 = setValue ''t.y'' (QDouble (yaw (rotation (transform d)))) s8
      in setValue ''t.r'' (QDouble (roll (rotation (transform d)))) s9)"

fun saveDevices :: "'b DeviceInScene list \<Rightarrow> int \<Rightarrow> QSettings \<Rightarrow> QSettings" where
  "saveDevices [] j settings = settings"
| "saveDevices (d # rest) j settings =
     saveDevices rest (j + 1) (saveDevice d (setArrayIndex j settings))"

text \<open>Lines 219 to 251, with the counter \<open>i\<close> of the loop.\<close>

fun saveScenes :: "('b, 'c, 'e) Scene list \<Rightarrow> int \<Rightarrow> QSettings \<Rightarrow> QSettings" where
  "saveScenes [] i settings = settings"
| "saveScenes (scene # rest) i settings =
     (let s1 = setArrayIndex i settings;
          s2 = beginWriteArray ''effects'' s1;
          s3 = saveEffects (effects scene) 0 s2;
          s4 = endArray s3;
          s5 = beginWriteArray ''devices'' s4;
          s6 = saveDevices (devicesInScene scene) 0 s5;
          s7 = endArray s6
      in saveScenes rest (i + 1) s7)"

text \<open>
  Lines 203 to 253. \<^verbatim>\<open>QSettings settings;\<close> opens the store with no group open; the
  result is the store the object leaves behind.
\<close>

definition Save ::
  "('b, 'c, 'e, 'p) Backend \<Rightarrow> (string \<times> QVariant) list
     \<Rightarrow> Fault + (string \<times> QVariant) list" where
  "Save b store =
     (let settings = clear \<lparr>entries = store, groupStack = []\<rparr>
      in case saveProviders (deviceProviders b) settings of
           Inl fault \<Rightarrow> Inl fault
         | Inr s1 \<Rightarrow>
             (let scenesToSave = scenes b;
                  s2 = beginWriteArray ''scenes'' s1;
                  s3 = saveScenes scenesToSave 0 s2
              in Inr (entries (endArray s3))))"

section \<open>Load\<close>

text \<open>Lines 260 to 263.\<close>

fun loadProviders ::
  "(ProviderType \<times> ('b, 'p) DeviceProvider option) list \<Rightarrow> QSettings
     \<Rightarrow> Fault + (ProviderType \<times> ('b, 'p) DeviceProvider option) list" where
  "loadProviders [] settings = Inr []"
| "loadProviders ((t, None) # dps) settings = Inl (NullProvider t)"
| "loadProviders ((t, Some p) # dps) settings =
     (case loadProviders dps settings of
        Inl fault \<Rightarrow> Inl fault
      | Inr loaded \<Rightarrow>
          Inr ((t, Some (p\<lparr>providerState := LoadProvider p (providerState p) settings\<rparr>)) # loaded))"

text \<open>
  \<^verbatim>\<open>deviceProviders[providerType]\<close> (line 288): a missing key is inserted with a null
  pointer. Where the container puts it is its own business; the model appends it.
\<close>

definition vivify ::
  "(ProviderType \<times> ('b, 'p) DeviceProvider option) list \<Rightarrow> ProviderType
     \<Rightarrow> (ProviderType \<times> ('b, 'p) DeviceProvider option) list" where
  "vivify dps t = (if map_of dps t = None then dps @ [(t, None)] else dps)"

text \<open>
  Lines 273 to 277: \<^verbatim>\<open>for (int j = 0; j < effectsSize; ++j)\<close> whose body starts with
  \<^verbatim>\<open>settings.setArrayIndex(j++)\<close>: the counter advances twice per iteration.
\<close>

function loadEffects ::
  "('b, 'c, 'e) Env \<Rightarrow> QSettings \<Rightarrow> ('b, 'c, 'e) Effect list \<Rightarrow> int \<Rightarrow> int
     \<Rightarrow> QSettings \<times> ('b, 'c, 'e) Effect list" where
  "loadEffects env settings loaded j effectsSize =
     (if j < effectsSize
      then (let s1 = setArrayIndex j settings;
                j1 = j + 1
            in loadEffects env s1 (loaded @ [StaticLoad env s1]) (j1 + 1) effectsSize)
      else (settings, loaded))"
  by pat_completeness auto
termination
  by (relation "measure (\<lambda>(env, settings, loaded, j, effectsSize). nat (effectsSize - j))") auto

declare loadEffects.simps [simp del]

text \<open>Lines 302 to 310: \<^verbatim>\<open>t.y\<close> is read for \<^verbatim>\<open>location.y\<close> and for \<^verbatim>\<open>rotation.yaw\<close>.\<close>

definition readTransform :: "QSettings \<Rightarrow> Transform" where
  "readTransform settings =
     \<lparr>location = \<lparr>vecX = toDouble (valueOf settings ''t.x''),
                   vecY = toDouble (valueOf settings ''t.y''),
                   vecZ = toDouble (valueOf settings ''t.z'')\<rparr>,
      scale = \<lparr>vecX = toDouble (valueOf settings ''t.sx''),
                vecY = toDouble (valueOf settings ''t.sy''),
                vecZ = toDouble (valueOf settings ''t.sz'')\<rparr>,
      rotation = \<lparr>pitch = toDouble (valueOf settings ''t.p''),
                   yaw = toDouble (valueOf settings ''t.y''),
                   roll = toDouble (valueOf settings ''t.r'')\<rparr>\<rparr>"

text \<open>
  Lines 281 to 311: the same loop header and the same \<^verbatim>\<open>setArrayIndex(j++)\<close>; each
  \<^verbatim>\<open>continue\<close> goes to the \<^verbatim>\<open>++j\<close> of the header.
\<close>

function loadDevices ::
  "('b, 'c, 'e) Env \<Rightarrow> (ProviderType \<times> ('b, 'p) DeviceProvider option) list \<Rightarrow> QSettings
     \<Rightarrow> 'b DeviceInScene list \<Rightarrow> int \<Rightarrow> int
     \<Rightarrow> (ProviderType \<times> ('b, 'p) DeviceProvider option) list \<times> QSettings \<times> 'b DeviceInScene list" where
  "loadDevices env dps settings loaded j devicesSize =
     (if j < devicesSize
      then (let s1 = setArrayIndex j settings;
                j1 = j + 1;
                uid = toString env (valueOf s1 ''id'');
                providerType = GetProviderTypeFromUniqueId env uid;
                dps1 = vivify dps providerType
            in case map_of dps1 providerType of
                 Some (Some p) \<Rightarrow>
                   (case GetDeviceFromUniqueId p (providerState p) uid of
                      None \<Rightarrow> loadDevices env dps1 s1 loaded (j1 + 1) devicesSize
                    | Some d \<Rightarrow>
                        loadDevices env dps1 s1
                          (loaded @ [\<lparr>device = d, transform = readTransform s1\<rparr>])
                          (j1 + 1) devicesSize)
               | _ \<Rightarrow> loadDevices env dps1 s1 loaded (j1 + 1) devicesSize)
      else (dps, settings, loaded))"
  by pat_completeness auto
termination
  by (relation "measure (\<lambda>(env, dps, settings, loaded, j, devicesSize). nat (devicesSize - j))")
     auto

declare loadDevices.simps [simp del]

text \<open>Lines 267 to 313: every stored scene is appended to \<open>scenes\<close>.\<close>

function loadScenes ::
  "('b, 'c, 'e) Env \<Rightarrow> (ProviderType \<times> ('b, 'p) DeviceProvider option) list \<Rightarrow> QSettings
     \<Rightarrow> ('b, 'c, 'e) Scene list \<Rightarrow> int \<Rightarrow> int
     \<Rightarrow> (ProviderType \<times> ('b, 'p) DeviceProvider option) list \<times> QSettings
          \<times> ('b, 'c, 'e) Scene list" where
  "loadScenes env dps settings loaded i scenesSize =
     (if i < scenesSize
      then (let s1 = setArrayIndex i settings;
                (effectsSize, s2) = beginReadArray ''effects'' s1;
                (s3, sceneEffects) = loadEffects env s2 [] 0 effectsSize;
                s4 = endArray s3;
                (devicesSize, s5) = beginReadArray ''devices'' s4;
                (dps1, s6, sceneDevices) = loadDevices env dps s5 [] 0 devicesSize;
                s7 = endArray s6
            in loadScenes env dps1 s7
                 (loaded @ [\<lparr>devicesInScene = sceneDevices, effects = sceneEffects\<rparr>])
                 (i + 1) scenesSize)
      else (dps, settings, loaded))"
  by pat_completeness auto
termination
  by (relation "measure (\<lambda>(env, dps, settings, loaded, i, scenesSize). nat (scenesSize - i))")
     auto

declare loadScenes.simps [simp del]

text \<open>Lines 255 to 315.\<close>

definition Load ::
  "('b, 'c, 'e) Env \<Rightarrow> ('b, 'c, 'e, 'p) Backend \<Rightarrow> (string \<times> QVariant) list
     \<Rightarrow> Fault + ('b, 'c, 'e, 'p) Backend" where
  "Load env b store =
     (let settings = \<lparr>entries = store, groupStack = []\<rparr>
      in case loadProviders (deviceProviders b) settings of
           Inl fault \<Rightarrow> Inl fault
         | Inr dps0 \<Rightarrow>
             (let (scenesSize, s1) = beginReadArray ''scenes'' settings;
                  (dps1, s2, loaded) = loadScenes env dps0 s1 (scenes b) 0 scenesSize;
                  s3 = endArray s2
              in Inr (b\<lparr>scenes := loaded, deviceProviders := dps1\<rparr>)))"

section \<open>The sort of the C++ library\<close>

text \<open>
  \<^verbatim>\<open>std::sort\<close> belongs to the C++ library the program is built with, and the
  standard fixes its contract only. What follows is the algorithm of libstdc++, the
  library of GCC (\<^verbatim>\<open>bits/stl_algo.h\<close>, \<^verbatim>\<open>bits/stl_heap.h\<close>): quicksort with a median
  of three as pivot down to a recursion depth of \<open>2 * lg n\<close>, heapsort below that
  depth, ranges of at most 16 elements left to one final insertion sort. The list is
  the array, iterators are positions in it, \<open>cmp\<close> is the comparator. The loops called
  unguarded do not check the bounds of the array: they rely on the comparator being a
  strict weak ordering, and a read outside the array is the fault \<open>OutOfRange\<close>.
\<close>

definition compAt :: "('a \<Rightarrow> 'a \<Rightarrow> Fault + bool) \<Rightarrow> 'a list \<Rightarrow> nat \<Rightarrow> nat \<Rightarrow> Fault + bool" where
  "compAt cmp xs i j =
     (if i < length xs \<and> j < length xs then cmp (xs ! i) (xs ! j) else Inl OutOfRange)"

definition iter_swap :: "'a list \<Rightarrow> nat \<Rightarrow> nat \<Rightarrow> 'a list" where
  "iter_swap xs i j = xs[i := xs ! j, j := xs ! i]"

text \<open>
  \<^verbatim>\<open>__unguarded_linear_insert(last, comp)\<close>, after \<open>val\<close> has been moved out of
  \<^verbatim>\<open>*last\<close>: elements move one place up while \<open>val\<close> compares less than the element
  below the hole.
\<close>

function unguarded_linear_insert ::
  "('a \<Rightarrow> 'a \<Rightarrow> Fault + bool) \<Rightarrow> 'a \<Rightarrow> 'a list \<Rightarrow> nat \<Rightarrow> Fault + 'a list" where
  "unguarded_linear_insert cmp val xs lst =
     (if lst = 0 \<or> length xs \<le> lst then Inl OutOfRange
      else case cmp val (xs ! (lst - 1)) of
             Inl fault \<Rightarrow> Inl fault
           | Inr smaller \<Rightarrow>
               if smaller
               then unguarded_linear_insert cmp val (xs[lst := xs ! (lst - 1)]) (lst - 1)
               else Inr (xs[lst := val]))"
  by pat_completeness auto
termination
  by (relation "measure (\<lambda>(cmp, val, xs, lst). lst)") auto

declare unguarded_linear_insert.simps [simp del]

text \<open>
  \<^verbatim>\<open>std::move_backward(first, i, i + 1)\<close> followed by \<^verbatim>\<open>*first = val\<close>, where \<open>val\<close> was
  \<^verbatim>\<open>*i\<close>.
\<close>

definition move_backward :: "'a list \<Rightarrow> nat \<Rightarrow> nat \<Rightarrow> 'a list" where
  "move_backward xs first i =
     take first xs @ [xs ! i] @ take (i - first) (drop first xs) @ drop (Suc i) xs"

text \<open>
  \<^verbatim>\<open>__insertion_sort(first, last, comp)\<close>: the loop over \<open>i\<close> from \<open>first + 1\<close>, which
  never passes \<open>lst\<close>.
\<close>

function insertion_loop ::
  "('a \<Rightarrow> 'a \<Rightarrow> Fault + bool) \<Rightarrow> 'a list \<Rightarrow> nat \<Rightarrow> nat \<Rightarrow> nat \<Rightarrow> Fault + 'a list" where
  "insertion_loop cmp xs first i lst =
     (if i < lst
      then (case compAt cmp xs i first of
              Inl fault \<Rightarrow> Inl fault
            | Inr smaller \<Rightarrow>
                if smaller
                then insertion_loop cmp (move_backward xs first i) first (Suc i) lst
                else (case unguarded_linear_insert cmp (xs ! i) xs i of
                        Inl fault \<Rightarrow> Inl fault
                      | Inr xs1 \<Rightarrow> insertion_loop cmp xs1 first (Suc i) lst))
      else Inr xs)"
  by pat_completeness auto
termination
  by (relation "measure (\<lambda>(cmp, xs, first, i, lst). lst - i)") auto

declare insertion_loop.simps [simp del]

definition insertion_sort ::
  "('a \<Rightarrow> 'a \<Rightarrow> Fault + bool) \<Rightarrow> 'a list \<Rightarrow> nat \<Rightarrow> nat \<Rightarrow> Fault + 'a list" where
  "insertion_sort cmp xs first lst =
     (if first = lst then Inr xs else insertion_loop cmp xs first (Suc first) lst)"

text \<open>\<^verbatim>\<open>__unguarded_insertion_sort(first, last, comp)\<close>, with \<open>i\<close> for its iterator.\<close>

function unguarded_insertion_sort ::
  "('a \<Rightarrow> 'a \<Rightarrow> Fault + bool) \<Rightarrow> 'a list \<Rightarrow> nat \<Rightarrow> nat \<Rightarrow> Fault + 'a list" where
  "unguarded_insertion_sort cmp xs i lst =
     (if i < lst
      then (if length xs \<le> i then Inl OutOfRange
            else case unguarded_linear_insert cmp (xs ! i) xs i of
                   Inl fault \<Rightarrow> Inl fault
                 | Inr xs1 \<Rightarrow> unguarded_insertion_sort cmp xs1 (Suc i) lst)
      else Inr xs)"
  by pat_completeness auto
termination
  by (relation "measure (\<lambda>(cmp, xs, i, lst). lst - i)") auto

declare unguarded_insertion_sort.simps [simp del]

text \<open>\<^verbatim>\<open>__final_insertion_sort\<close>, with the threshold \<^verbatim>\<open>_S_threshold = 16\<close>.\<close>

definition final_insertion_sort ::
  "('a \<Rightarrow> 'a \<Rightarrow> Fault + bool) \<Rightarrow> 'a list \<Rightarrow> nat \<Rightarrow> nat \<Rightarrow> Fault + 'a list" where
  "final_insertion_sort cmp xs first lst =
     (if int lst - int first > 16
      then (case insertion_sort cmp xs first (first + 16) of
              Inl fault \<Rightarrow> Inl fault
            | Inr xs1 \<Rightarrow> unguarded_insertion_sort cmp xs1 (first + 16) lst)
      else insertion_sort cmp xs first lst)"

text \<open>\<^verbatim>\<open>__move_median_to_first(result, a, b, c, comp)\<close>.\<close>

definition move_median_to_first ::
  "('a \<Rightarrow> 'a \<Rightarrow> Fault + bool) \<Rightarrow> 'a list \<Rightarrow> nat \<Rightarrow> nat \<Rightarrow> nat \<Rightarrow> nat \<Rightarrow> Fault + 'a list" where
  "move_median_to_first cmp xs result a b c =
     (case compAt cmp xs a b of
        Inl fault \<Rightarrow> Inl fault
      | Inr ab \<Rightarrow>
          if ab
          then (case compAt cmp xs b c of
                  Inl fault \<Rightarrow> Inl fault
                | Inr bc \<Rightarrow>
                    if bc then Inr (iter_swap xs result b)
                    else (case compAt cmp xs a c of
                            Inl fault \<Rightarrow> Inl fault
                          | Inr ac \<Rightarrow>
                              if ac then Inr (iter_swap xs result c)
                              else Inr (iter_swap xs result a)))
          else (case compAt cmp xs a c of
                  Inl fault \<Rightarrow> Inl fault
                | Inr ac \<Rightarrow>
                    if ac then Inr (iter_swap xs result a)
                    else (case compAt cmp xs b c of
                            Inl fault \<Rightarrow> Inl fault
                          | Inr bc \<Rightarrow>
                              if bc then Inr (iter_swap xs result c)
                              else Inr (iter_swap xs result b))))"

text \<open>
  The two inner loops of \<^verbatim>\<open>__unguarded_partition\<close>:
  \<^verbatim>\<open>while (comp(first, pivot)) ++first;\<close> and \<^verbatim>\<open>while (comp(pivot, last)) --last;\<close>.
\<close>

function scan_up ::
  "('a \<Rightarrow> 'a \<Rightarrow> Fault + bool) \<Rightarrow> 'a list \<Rightarrow> nat \<Rightarrow> nat \<Rightarrow> Fault + nat" where
  "scan_up cmp xs first pivot =
     (case compAt cmp xs first pivot of
        Inl fault \<Rightarrow> Inl fault
      | Inr smaller \<Rightarrow> if smaller then scan_up cmp xs (Suc first) pivot else Inr first)"
  by pat_completeness auto
termination
  by (relation "measure (\<lambda>(cmp, xs, first, pivot). length xs - first)")
     (auto simp: compAt_def split: if_splits)

declare scan_up.simps [simp del]

function scan_down ::
  "('a \<Rightarrow> 'a \<Rightarrow> Fault + bool) \<Rightarrow> 'a list \<Rightarrow> nat \<Rightarrow> nat \<Rightarrow> Fault + nat" where
  "scan_down cmp xs pivot lst =
     (case compAt cmp xs pivot lst of
        Inl fault \<Rightarrow> Inl fault
      | Inr smaller \<Rightarrow>
          if smaller
          then (if lst = 0 then Inl OutOfRange else scan_down cmp xs pivot (lst - 1))
          else Inr lst)"
  by pat_completeness auto
termination
  by (relation "measure (\<lambda>(cmp, xs, pivot, lst). lst)") auto

declare scan_down.simps [simp del]

text \<open>
  \<^verbatim>\<open>__unguarded_partition(first, last, pivot, comp)\<close>; it returns the array and the
  position of the cut. The downward scan never ends above its start, hence the loop
  ends.
\<close>

function unguarded_partition ::
  "('a \<Rightarrow> 'a \<Rightarrow> Fault + bool) \<Rightarrow> 'a list \<Rightarrow> nat \<Rightarrow> nat \<Rightarrow> nat \<Rightarrow> Fault + ('a list \<times> nat)" where
  "unguarded_partition cmp xs first lst pivot =
     (case scan_up cmp xs first pivot of
        Inl fault \<Rightarrow> Inl fault
      | Inr first1 \<Rightarrow>
          if lst = 0 then Inl OutOfRange
          else (case scan_down cmp xs pivot (lst - 1) of
                  Inl fault \<Rightarrow> Inl fault
                | Inr lst1 \<Rightarrow>
                    if first1 < lst1
                    then unguarded_partition cmp (iter_swap xs first1 lst1) (Suc first1) lst1 pivot
                    else Inr (xs, first1)))"
  by pat_completeness auto
termination
proof (relation "measure (\<lambda>(cmp, xs, first, lst, pivot). lst)")
  show "wf (measure (\<lambda>(cmp, xs, first, lst, pivot). lst))"
    by simp
next
  fix cmp :: "'a \<Rightarrow> 'a \<Rightarrow> Fault + bool" and xs first lst pivot first1 lst1
  assume "lst \<noteq> 0" and down: "scan_down cmp xs pivot (lst - 1) = Inr lst1"
  have "k \<le> l" if "scan_down cmp xs pivot l = Inr k" for l k
    using that
  proof (induction cmp xs pivot l rule: scan_down.induct)
    case (1 cmp xs pivot l)
    show ?case
    proof (cases "compAt cmp xs pivot l = Inr True \<and> l \<noteq> 0")
      case True
      with "1.prems" have "scan_down cmp xs pivot (l - 1) = Inr k"
        by (subst (asm) scan_down.simps) simp
      with True have "k \<le> l - 1"
        by (intro "1.IH" [of True]) simp_all
      then show ?thesis by simp
    next
      case False
      with "1.prems" show ?thesis
        by (subst (asm) scan_down.simps) (auto split: sum.splits if_splits)
    qed
  qed
  from this [OF down] \<open>lst \<noteq> 0\<close>
  show "((cmp, iter_swap xs first1 lst1, Suc first1, lst1, pivot), (cmp, xs, first, lst, pivot))
          \<in> measure (\<lambda>(cmp, xs, first, lst, pivot). lst)"
    by simp
qed

declare unguarded_partition.simps [simp del]

text \<open>\<^verbatim>\<open>__unguarded_partition_pivot(first, last, comp)\<close>.\<close>

definition unguarded_partition_pivot ::
  "('a \<Rightarrow> 'a \<Rightarrow> Fault + bool) \<Rightarrow> 'a list \<Rightarrow> nat \<Rightarrow> nat \<Rightarrow> Fault + ('a list \<times> nat)" where
  "unguarded_partition_pivot cmp xs first lst =
     (let mid = first + (lst - first) div 2
      in case move_median_to_first cmp xs first (first + 1) mid (lst - 1) of
           Inl fault \<Rightarrow> Inl fault
         | Inr xs1 \<Rightarrow> unguarded_partition cmp xs1 (first + 1) lst first)"

text \<open>
  The heap operations of \<^verbatim>\<open>bits/stl_heap.h\<close>, on the range that starts at \<open>first\<close>:
  \<^verbatim>\<open>__push_heap\<close>, the loop and the body of \<^verbatim>\<open>__adjust_heap\<close>, the loop and the body
  of \<^verbatim>\<open>__make_heap\<close>, \<^verbatim>\<open>__sort_heap\<close> with \<^verbatim>\<open>__pop_heap\<close> inlined, and
  \<^verbatim>\<open>__partial_sort(first, last, last, comp)\<close>, whose \<^verbatim>\<open>__heap_select\<close> has nothing to
  select from.
\<close>

function push_heap ::
  "('a \<Rightarrow> 'a \<Rightarrow> Fault + bool) \<Rightarrow> 'a list \<Rightarrow> nat \<Rightarrow> nat \<Rightarrow> nat \<Rightarrow> 'a \<Rightarrow> Fault + 'a list" where
  "push_heap cmp xs first holeIndex topIndex val =
     (let parent = (holeIndex - 1) div 2
      in if holeIndex > topIndex
         then (if length xs \<le> first + parent then Inl OutOfRange
               else case cmp (xs ! (first + parent)) val of
                      Inl fault \<Rightarrow> Inl fault
                    | Inr smaller \<Rightarrow>
                        if smaller
                        then push_heap cmp (xs[first + holeIndex := xs ! (first + parent)])
                               first parent topIndex val
                        else Inr (xs[first + holeIndex := val]))
         else Inr (xs[first + holeIndex := val]))"
  by pat_completeness auto
termination
  by (relation "measure (\<lambda>(cmp, xs, first, holeIndex, topIndex, val). holeIndex)") auto

declare push_heap.simps [simp del]

function adjust_loop ::
  "('a \<Rightarrow> 'a \<Rightarrow> Fault + bool) \<Rightarrow> 'a list \<Rightarrow> nat \<Rightarrow> nat \<Rightarrow> nat \<Rightarrow> nat
     \<Rightarrow> Fault + ('a list \<times> nat \<times> nat)" where
  "adjust_loop cmp xs first holeIndex secondChild len =
     (if secondChild < (len - 1) div 2
      then (let child = 2 * (secondChild + 1)
            in case compAt cmp xs (first + child) (first + (child - 1)) of
                 Inl fault \<Rightarrow> Inl fault
               | Inr smaller \<Rightarrow>
                   (let child1 = (if smaller then child - 1 else child)
                    in adjust_loop cmp (xs[first + holeIndex := xs ! (first + child1)])
                         first child1 child1 len))
      else Inr (xs, holeIndex, secondChild))"
  by pat_completeness auto
termination
  by (relation "measure (\<lambda>(cmp, xs, first, holeIndex, secondChild, len). len - secondChild)")
     auto

declare adjust_loop.simps [simp del]

definition adjust_heap ::
  "('a \<Rightarrow> 'a \<Rightarrow> Fault + bool) \<Rightarrow> 'a list \<Rightarrow> nat \<Rightarrow> nat \<Rightarrow> nat \<Rightarrow> 'a \<Rightarrow> Fault + 'a list" where
  "adjust_heap cmp xs first holeIndex len val =
     (case adjust_loop cmp xs first holeIndex holeIndex len of
        Inl fault \<Rightarrow> Inl fault
      | Inr (xs1, hole1, child1) \<Rightarrow>
          if even len \<and> child1 = (len - 2) div 2
          then (let child = 2 * (child1 + 1)
                in push_heap cmp (xs1[first + hole1 := xs1 ! (first + (child - 1))])
                     first (child - 1) holeIndex val)
          else push_heap cmp xs1 first hole1 holeIndex val)"

function make_heap_loop ::
  "('a \<Rightarrow> 'a \<Rightarrow> Fault + bool) \<Rightarrow> 'a list \<Rightarrow> nat \<Rightarrow> nat \<Rightarrow> nat \<Rightarrow> Fault + 'a list" where
  "make_heap_loop cmp xs first len parent =
     (case adjust_heap cmp xs first parent len (xs ! (first + parent)) of
        Inl fault \<Rightarrow> Inl fault
      | Inr xs1 \<Rightarrow> if parent = 0 then Inr xs1 else make_heap_loop cmp xs1 first len (parent - 1))"
  by pat_completeness auto
termination
  by (relation "measure (\<lambda>(cmp, xs, first, len, parent). parent)") auto

declare make_heap_loop.simps [simp del]

definition make_heap ::
  "('a \<Rightarrow> 'a \<Rightarrow> Fault + bool) \<Rightarrow> 'a list \<Rightarrow> nat \<Rightarrow> nat \<Rightarrow> Fault + 'a list" where
  "make_heap cmp xs first lst =
     (if int lst - int first < 2 then Inr xs
      else make_heap_loop cmp xs first (lst - first) ((lst - first - 2) div 2))"

function sort_heap ::
  "('a \<Rightarrow> 'a \<Rightarrow> Fault + bool) \<Rightarrow> 'a list \<Rightarrow> nat \<Rightarrow> nat \<Rightarrow> Fault + 'a list" where
  "sort_heap cmp xs first lst =
     (if int lst - int first > 1
      then (let lst1 = lst - 1;
                val = xs ! lst1
            in case adjust_heap cmp (xs[lst1 := xs ! first]) first 0 (lst1 - first) val of
                 Inl fault \<Rightarrow> Inl fault
               | Inr xs1 \<Rightarrow> sort_heap cmp xs1 first lst1)
      else Inr xs)"
  by pat_completeness auto
termination
  by (relation "measure (\<lambda>(cmp, xs, first, lst). lst)") auto

declare sort_heap.simps [simp del]

definition partial_sort ::
  "('a \<Rightarrow> 'a \<Rightarrow> Fault + bool) \<Rightarrow> 'a list \<Rightarrow> nat \<Rightarrow> nat \<Rightarrow> Fault + 'a list" where
  "partial_sort cmp xs first lst =
     (case make_heap cmp xs first lst of
        Inl fault \<Rightarrow> Inl fault
      | Inr xs1 \<Rightarrow> sort_heap cmp xs1 first lst)"

text \<open>
  \<^verbatim>\<open>__introsort_loop(first, last, depth_limit, comp)\<close>: the recursive call sorts the
  part above the cut, the \<^verbatim>\<open>while\<close> loop goes on below it.
\<close>

function introsort_loop ::
  "('a \<Rightarrow> 'a \<Rightarrow> Fault + bool) \<Rightarrow> 'a list \<Rightarrow> nat \<Rightarrow> nat \<Rightarrow> nat \<Rightarrow> Fault + 'a list" where
  "introsort_loop cmp xs first lst depth_limit =
     (if int lst - int first > 16
      then (if depth_limit = 0 then partial_sort cmp xs first lst
            else (case unguarded_partition_pivot cmp xs first lst of
                    Inl fault \<Rightarrow> Inl fault
                  | Inr (xs1, cutAt) \<Rightarrow>
                      (case introsort_loop cmp xs1 cutAt lst (depth_limit - 1) of
                         Inl fault \<Rightarrow> Inl fault
                       | Inr xs2 \<Rightarrow> introsort_loop cmp xs2 first cutAt (depth_limit - 1))))
      else Inr xs)"
  by pat_completeness auto
termination
  by (relation "measure (\<lambda>(cmp, xs, first, lst, depth_limit). depth_limit)") auto

declare introsort_loop.simps [simp del]

text \<open>\<^verbatim>\<open>std::__lg(n)\<close>, the position of the highest bit of \<open>n\<close>.\<close>

function lg :: "nat \<Rightarrow> nat" where
  "lg n = (if n < 2 then 0 else Suc (lg (n div 2)))"
  by pat_completeness auto
termination
  by (relation "measure id") auto

declare lg.simps [simp del]

text \<open>\<^verbatim>\<open>std::sort(first, last, comp)\<close> on the whole list.\<close>

definition libstdcxx_sort ::
  "('a \<Rightarrow> 'a \<Rightarrow> Fault + bool) \<Rightarrow> 'a list \<Rightarrow> Fault + 'a list" where
  "libstdcxx_sort cmp xs =
     (if xs = [] then Inr xs
      else case introsort_loop cmp xs 0 (length xs) (lg (length xs) * 2) of
             Inl fault \<Rightarrow> Inl fault
           | Inr xs1 \<Rightarrow> final_insertion_sort cmp xs1 0 (length xs))"

section \<open>Notions the properties are stated with\<close>

text \<open>
  A pair of cursors delimits a range of a buffer only when both point into it;
  \<open>rangeLength\<close> is \<^verbatim>\<open>end - begin\<close>, and \<open>inRange i\<close> says that index \<open>i\<close> lies in the
  range.
\<close>

fun rangeLength :: "Cursor \<Rightarrow> Cursor \<Rightarrow> nat option" where
  "rangeLength (At b) (At e) = Some (e - b)"
| "rangeLength _ _ = None"

fun inRange :: "nat \<Rightarrow> Cursor \<Rightarrow> Cursor \<Rightarrow> bool" where
  "inRange i (At b) (At e) = (b \<le> i \<and> i < e)"
| "inRange i _ _ = False"

definition emptyRanges :: "LightUpdateParams \<Rightarrow> bool" where
  "emptyRanges u =
     (colorsBegin u = colorsEnd u \<and> devicesBegin u = devicesEnd u \<and>
      boundingBoxesBegin u = boundingBoxesEnd u)"

text \<open>
  The state of \<^verbatim>\<open>lightUpdates\<close> in every run of the thread: it starts empty, and its
  entries are only ever inserted by the subscript.
\<close>

definition onlyValueInit :: "(ProviderType \<rightharpoonup> LightUpdateParams) \<Rightarrow> bool" where
  "onlyValueInit lu = (\<forall>t. lu t = None \<or> lu t = Some valueInitParams)"

definition noNullProvider :: "(ProviderType \<times> ('b, 'p) DeviceProvider option) list \<Rightarrow> bool" where
  "noNullProvider dps = list_all (\<lambda>dp. snd dp \<noteq> None) dps"

text \<open>
  What the C++ standard asks of the comparator of \<^verbatim>\<open>std::sort\<close> (a strict weak
  ordering) and what it promises in return, here for one list \<open>xs\<close>: a permutation of
  \<open>xs\<close> in which no element is followed by a smaller one. It promises nothing about
  the order of equivalent elements.
\<close>

definition strictWeakOrder :: "'a set \<Rightarrow> ('a \<Rightarrow> 'a \<Rightarrow> bool) \<Rightarrow> bool" where
  "strictWeakOrder A lt =
     ((\<forall>a\<in>A. \<not> lt a a) \<and>
      (\<forall>a\<in>A. \<forall>b\<in>A. \<forall>c\<in>A. lt a b \<and> lt b c \<longrightarrow> lt a c) \<and>
      (\<forall>a\<in>A. \<forall>b\<in>A. \<forall>c\<in>A.
         \<not> lt a b \<and> \<not> lt b a \<and> \<not> lt b c \<and> \<not> lt c b \<longrightarrow> \<not> lt a c \<and> \<not> lt c a))"

definition sortContract ::
  "(('a \<Rightarrow> 'a \<Rightarrow> Fault + bool) \<Rightarrow> 'a list \<Rightarrow> Fault + 'a list) \<Rightarrow> 'a list \<Rightarrow> bool" where
  "sortContract srt xs =
     (\<forall>cmp lt.
        (\<forall>a\<in>set xs. \<forall>b\<in>set xs. cmp a b = Inr (lt a b)) \<and> strictWeakOrder (set xs) lt
        \<longrightarrow> (\<exists>ys. srt cmp xs = Inr ys \<and> mset ys = mset xs \<and>
                  sorted_wrt (\<lambda>a b. \<not> lt b a) ys))"

text \<open>
  One block per value: between two equal entries of a list there is no different one.
\<close>

definition contiguous :: "'a list \<Rightarrow> bool" where
  "contiguous ts =
     (\<forall>i j k. i < k \<and> k < j \<and> j < length ts \<and> ts ! i = ts ! j \<longrightarrow> ts ! k = ts ! i)"

section \<open>Test doubles\<close>

text \<open>
  Concrete collaborators for the closed theorems: the sort of libstdc++ for
  \<^verbatim>\<open>std::sort\<close>, a cross-provider comparator that orders by provider type, a provider
  whose own comparator calls all its devices equivalent, devices with fixed boxes, and
  an effect that paints every colour with one value.
\<close>

fun typeRank :: "ProviderType \<Rightarrow> nat" where
  "typeRank Hue = 0"
| "typeRank (OtherProvider n) = Suc n"

definition compareByType :: "'b Device \<Rightarrow> 'b Device \<Rightarrow> bool" where
  "compareByType a b = (typeRank (GetType a) < typeRank (GetType b))"

definition fixedDevice :: "string \<Rightarrow> ProviderType \<Rightarrow> nat list \<Rightarrow> nat Device" where
  "fixedDevice uid t boxes =
     \<lparr>GetUniqueId = uid, GetType = t, GetLightBoundingBoxes = (\<lambda>_. boxes)\<rparr>"

definition fillEffect :: "nat \<Rightarrow> (nat, nat, unit) Effect" where
  "fillEffect c =
     \<lparr>effectState = (), Tick = (\<lambda>_ s. s), Update = (\<lambda>s _ cols. (s, map (\<lambda>_. c) cols)),
      SaveEffect = (\<lambda>_ settings. settings)\<rparr>"

definition plainProvider :: "nat Device list \<Rightarrow> (nat, nat Device list) DeviceProvider" where
  "plainProvider known =
     \<lparr>providerState = known,
      compareInProvider = (\<lambda>_ _ _. False),
      GetDeviceFromUniqueId = (\<lambda>ds uid. find (\<lambda>d. GetUniqueId d = uid) ds),
      SaveProvider = (\<lambda>_ settings. settings),
      LoadProvider = (\<lambda>ds _. ds)\<rparr>"

definition testEnv :: "(nat, nat, unit) Env" where
  "testEnv =
     \<lparr>std_sort = libstdcxx_sort, compareDevices = compareByType, defaultColor = 0,
      GetProviderTypeFromUniqueId = (\<lambda>uid. if take 1 uid = ''A'' then Hue else OtherProvider 0),
      StaticLoad = (\<lambda>_. fillEffect 0), doubleToString = (\<lambda>_. [])\<rparr>"

definition origin :: Transform where
  "origin =
     \<lparr>location = \<lparr>vecX = 0, vecY = 0, vecZ = 0\<rparr>,
      scale = \<lparr>vecX = 1, vecY = 1, vecZ = 1\<rparr>,
      rotation = \<lparr>pitch = 0, yaw = 0, roll = 0\<rparr>\<rparr>"

definition deviceA :: "nat Device" where
  "deviceA = fixedDevice ''A-1'' Hue [10]"

definition deviceB :: "nat Device" where
  "deviceB = fixedDevice ''B-1'' (OtherProvider 0) [20, 21]"

definition twoProviders :: "(ProviderType \<times> (nat, nat Device list) DeviceProvider option) list" where
  "twoProviders =
     [(Hue, Some (plainProvider [deviceA])), (OtherProvider 0, Some (plainProvider [deviceB]))]"

definition idleBackend :: "(nat, nat, unit, nat Device list) Backend" where
  "idleBackend =
     \<lparr>stopRequested = False, thread = None,
      scenes = [\<lparr>devicesInScene = [\<lparr>device = deviceA, transform = origin\<rparr>,
                                   \<lparr>device = deviceB, transform = origin\<rparr>],
                 effects = [fillEffect 7]\<rparr>],
      activeSceneIndex = 0, scenesAreDirty = True, deviceProviders = twoProviders\<rparr>"

text \<open>The locals of a thread that \<open>Start\<close> has just created on \<open>idleBackend\<close>.\<close>

definition threadLocals0 :: "(nat, nat, unit) Render" where
  "threadLocals0 =
     \<lparr>renderScene = sceneAt (scenes idleBackend) 0, lightUpdates = Map.empty,
      colors = [], boundingBoxes = [], devices = []\<rparr>"

definition runningBackend :: "(nat, nat, unit, nat Device list) Backend" where
  "runningBackend = idleBackend\<lparr>thread := Some threadLocals0\<rparr>"

text \<open>A scene that uses only the first of the two providers.\<close>

definition soloBackend :: "(nat, nat, unit, nat Device list) Backend" where
  "soloBackend =
     idleBackend\<lparr>scenes := [\<lparr>devicesInScene = [\<lparr>device = deviceA, transform = origin\<rparr>],
                              effects = [fillEffect 7]\<rparr>]\<rparr>"


text \<open>The active scene index points past the only scene.\<close>

definition farBackend :: "(nat, nat, unit, nat Device list) Backend" where
  "farBackend = idleBackend\<lparr>activeSceneIndex := 5\<rparr>"

text \<open>
  The locals of the thread after the dirty block has run on \<open>idleBackend\<close>, and after
  the whole tick.
\<close>

definition flatLocals :: "(nat, nat, unit) Render" where
  "flatLocals =
     threadLocals0\<lparr>lightUpdates := [Hue \<mapsto> valueInitParams, OtherProvider 0 \<mapsto> valueInitParams],
                   colors := [0, 0, 0], boundingBoxes := [10, 20, 21],
                   devices := [deviceA, deviceB, deviceB]\<rparr>"

definition renderedLocals :: "(nat, nat, unit) Render" where
  "renderedLocals =
     threadLocals0\<lparr>lightUpdates := [Hue \<mapsto> valueInitParams, OtherProvider 0 \<mapsto> valueInitParams],
                   colors := [7, 7, 7], boundingBoxes := [10, 20, 21],
                   devices := [deviceA, deviceB, deviceB]\<rparr>"

text \<open>
  A backend whose scene list was rewritten since the thread took its snapshot (its one
  scene has no device, and an effect that paints 9) and whose dirty flag is not set.
\<close>

definition calmBackend :: "(nat, nat, unit, nat Device list) Backend" where
  "calmBackend =
     idleBackend\<lparr>scenes := [\<lparr>devicesInScene = [], effects = [fillEffect 9]\<rparr>],
                 scenesAreDirty := False\<rparr>"

text \<open>
  Entries for the sort: the two devices of \<open>idleBackend\<close> in the other order, and a
  second device of the first provider. \<open>rankLess\<close> is the ordering the comparator
  computes on \<open>entryA\<close> and \<open>entryB\<close>.
\<close>

definition entryA :: "nat DeviceInScene" where
  "entryA = \<lparr>device = deviceA, transform = origin\<rparr>"

definition entryB :: "nat DeviceInScene" where
  "entryB = \<lparr>device = deviceB, transform = origin\<rparr>"

definition entryA2 :: "nat DeviceInScene" where
  "entryA2 = \<lparr>device = fixedDevice ''A-2'' Hue [11], transform = origin\<rparr>"

definition swappedBackend :: "(nat, nat, unit, nat Device list) Backend" where
  "swappedBackend =
     idleBackend\<lparr>scenes := [\<lparr>devicesInScene = [entryB, entryA], effects = [fillEffect 7]\<rparr>]\<rparr>"

definition rankLess :: "nat DeviceInScene \<Rightarrow> nat DeviceInScene \<Rightarrow> bool" where
  "rankLess a c = (typeRank (GetType (device a)) < typeRank (GetType (device c)))"

text \<open>
  Seventeen devices of the first provider, which its comparator calls equivalent:
  \<open>twin k\<close> has the id \<^verbatim>\<open>A-k\<close> and the one box \<open>k\<close>.
\<close>

definition twin :: "nat \<Rightarrow> nat DeviceInScene" where
  "twin k = \<lparr>device = fixedDevice (''A-'' @ showNat k) Hue [k], transform = origin\<rparr>"

definition crowdBackend :: "(nat, nat, unit, nat Device list) Backend" where
  "crowdBackend =
     idleBackend\<lparr>scenes :=
       [\<lparr>devicesInScene =
           [twin 0, twin 1, twin 2, twin 3, twin 4, twin 5, twin 6, twin 7, twin 8, twin 9,
            twin 10, twin 11, twin 12, twin 13, twin 14, twin 15, twin 16],
         effects = [fillEffect 7]\<rparr>]\<rparr>"

text \<open>
  The same scene with a first provider whose comparator says yes to every pair, which
  is no strict weak ordering; a scene with two devices of a provider that is not
  registered; and a scene of three devices under a \<^verbatim>\<open>compare(DevicePtr, DevicePtr)\<close> that
  calls devices of different providers equivalent.
\<close>

definition rashBackend :: "(nat, nat, unit, nat Device list) Backend" where
  "rashBackend =
     crowdBackend\<lparr>deviceProviders :=
       [(Hue, Some ((plainProvider [deviceA])\<lparr>compareInProvider := (\<lambda>_ _ _. True)\<rparr>)),
        (OtherProvider 0, Some (plainProvider [deviceB]))]\<rparr>"

definition strayBackend :: "(nat, nat, unit, nat Device list) Backend" where
  "strayBackend =
     idleBackend\<lparr>scenes :=
       [\<lparr>devicesInScene =
           [\<lparr>device = fixedDevice ''C-1'' (OtherProvider 5) [30], transform = origin\<rparr>,
            \<lparr>device = fixedDevice ''C-2'' (OtherProvider 5) [31], transform = origin\<rparr>],
         effects = [fillEffect 7]\<rparr>]\<rparr>"

definition levelEnv :: "(nat, nat, unit) Env" where
  "levelEnv = testEnv\<lparr>compareDevices := (\<lambda>_ _. False)\<rparr>"

definition mixedBackend :: "(nat, nat, unit, nat Device list) Backend" where
  "mixedBackend =
     idleBackend\<lparr>scenes :=
       [\<lparr>devicesInScene = [entryA, entryB, entryA2], effects = [fillEffect 7]\<rparr>]\<rparr>"

text \<open>
  A backend whose scene places the two devices, the backend that loads, the store
  that \<open>Save\<close> leaves for the first, and what \<open>Load\<close> makes of it in the second. In
  \<open>ghostStore\<close> the first device entry names a device that its provider does not know.
\<close>

definition placedA :: "nat DeviceInScene" where
  "placedA = \<lparr>device = deviceA,
               transform = \<lparr>location = \<lparr>vecX = 1, vecY = 2, vecZ = 3\<rparr>,
                            scale = \<lparr>vecX = 4, vecY = 5, vecZ = 6\<rparr>,
                            rotation = \<lparr>pitch = 7, yaw = 8, roll = 9\<rparr>\<rparr>\<rparr>"

definition placedB :: "nat DeviceInScene" where
  "placedB = \<lparr>device = deviceB,
               transform = \<lparr>location = \<lparr>vecX = 11, vecY = 12, vecZ = 13\<rparr>,
                            scale = \<lparr>vecX = 14, vecY = 15, vecZ = 16\<rparr>,
                            rotation = \<lparr>pitch = 17, yaw = 18, roll = 19\<rparr>\<rparr>\<rparr>"

definition savedBackend :: "(nat, nat, unit, nat Device list) Backend" where
  "savedBackend =
     idleBackend\<lparr>scenes := [\<lparr>devicesInScene = [placedA, placedB], effects = [fillEffect 7]\<rparr>]\<rparr>"

definition freshBackend :: "(nat, nat, unit, nat Device list) Backend" where
  "freshBackend = idleBackend\<lparr>scenes := []\<rparr>"

definition savedStore :: "(string \<times> QVariant) list" where
  "savedStore =
     [(''scenes/1/effects/size'', QInt 1),
      (''scenes/1/devices/1/id'', QString ''A-1''),
      (''scenes/1/devices/1/t.x'', QDouble 1),
      (''scenes/1/devices/1/t.y'', QDouble 8),
      (''scenes/1/devices/1/t.z'', QDouble 3),
      (''scenes/1/devices/1/t.sx'', QDouble 4),
      (''scenes/1/devices/1/t.sy'', QDouble 5),
      (''scenes/1/devices/1/t.sz'', QDouble 6),
      (''scenes/1/devices/1/t.p'', QDouble 7),
      (''scenes/1/devices/1/t.r'', QDouble 9),
      (''scenes/1/devices/2/id'', QString ''B-1''),
      (''scenes/1/devices/2/t.x'', QDouble 11),
      (''scenes/1/devices/2/t.y'', QDouble 18),
      (''scenes/1/devices/2/t.z'', QDouble 13),
      (''scenes/1/devices/2/t.sx'', QDouble 14),
      (''scenes/1/devices/2/t.sy'', QDouble 15),
      (''scenes/1/devices/2/t.sz'', QDouble 16),
      (''scenes/1/devices/2/t.p'', QDouble 17),
      (''scenes/1/devices/2/t.r'', QDouble 19),
      (''scenes/1/devices/size'', QInt 2),
      (''scenes/size'', QInt 1)]"

definition loadedBackend :: "(nat, nat, unit, nat Device list) Backend" where
  "loadedBackend =
     freshBackend\<lparr>scenes :=
       [\<lparr>devicesInScene =
           [\<lparr>device = deviceA,
             transform = \<lparr>location = \<lparr>vecX = 1, vecY = 8, vecZ = 3\<rparr>,
                          scale = \<lparr>vecX = 4, vecY = 5, vecZ = 6\<rparr>,
                          rotation = \<lparr>pitch = 7, yaw = 8, roll = 9\<rparr>\<rparr>\<rparr>],
          effects = [fillEffect 0]\<rparr>]\<rparr>"

definition ghostStore :: "(string \<times> QVariant) list" where
  "ghostStore = updateEntry ''scenes/1/devices/1/id'' (QString ''A-9'') savedStore"

text \<open>The store that \<open>Save\<close> leaves, as it reads once it has gone through a file: text.\<close>

definition textStore :: "(string \<times> QVariant) list" where
  "textStore =
     [(''scenes/1/effects/size'', QString ''1''),
      (''scenes/1/devices/1/id'', QString ''A-1''),
      (''scenes/1/devices/1/t.x'', QString ''1''),
      (''scenes/1/devices/1/t.y'', QString ''8''),
      (''scenes/1/devices/1/t.z'', QString ''3''),
      (''scenes/1/devices/1/t.sx'', QString ''4''),
      (''scenes/1/devices/1/t.sy'', QString ''5''),
      (''scenes/1/devices/1/t.sz'', QString ''6''),
      (''scenes/1/devices/1/t.p'', QString ''7''),
      (''scenes/1/devices/1/t.r'', QString ''9''),
      (''scenes/1/devices/2/id'', QString ''B-1''),
      (''scenes/1/devices/2/t.x'', QString ''11''),
      (''scenes/1/devices/2/t.y'', QString ''18''),
      (''scenes/1/devices/2/t.z'', QString ''13''),
      (''scenes/1/devices/2/t.sx'', QString ''14''),
      (''scenes/1/devices/2/t.sy'', QString ''15''),
      (''scenes/1/devices/2/t.sz'', QString ''16''),
      (''scenes/1/devices/2/t.p'', QString ''17''),
      (''scenes/1/devices/2/t.r'', QString ''19''),
      (''scenes/1/devices/size'', QString ''2''),
      (''scenes/size'', QString ''1'')]"

section \<open>Unfolding the model on the test doubles\<close>

lemmas fixture_defs =
  idleBackend_def twoProviders_def testEnv_def deviceA_def deviceB_def fixedDevice_def
  fillEffect_def plainProvider_def origin_def threadLocals0_def

lemmas tick_defs =
  tick_def refresh_def sceneAt_def sortLambda_def compareByType_def boxesOf_def Let_def
  resize_def subscript_def emptyScene_def

lemmas sort_defs =
  libstdcxx_sort_def lg.simps introsort_loop.simps final_insertion_sort_def insertion_sort_def
  insertion_loop.simps unguarded_insertion_sort.simps unguarded_linear_insert.simps
  unguarded_partition_pivot_def move_median_to_first_def unguarded_partition.simps
  scan_up.simps scan_down.simps compAt_def iter_swap_def move_backward_def

lemmas heap_defs =
  partial_sort_def make_heap_def make_heap_loop.simps sort_heap.simps adjust_heap_def
  adjust_loop.simps push_heap.simps compAt_def

lemmas settings_defs =
  digitChar_def showNat.simps groupToString_def groupPrefix_def actualKey_def setValue_def
  valueOf_def remove_def clear_def beginWriteArray_def beginReadArray_def setArrayIndex_def
  endArray_def

lemmas variant_defs =
  parseInteger_def parseNat_def trimmed_def isSpace_def isDigit_def truncateToInt_def
  parseDouble_def parseUnsigned_def parseMantissa_def

lemmas save_load_defs =
  Save_def saveDevice_def Load_def vivify_def readTransform_def loadEffects.simps
  loadDevices.simps loadScenes.simps Let_def

section \<open>Start and Stop in the target state\<close>

lemma Start_running: "IsRunning b \<Longrightarrow> Start b = Inr (b, [])"
  by (simp add: Start_def)

lemma Stop_idle: "\<not> IsRunning b \<Longrightarrow> Stop b = Inr (b, [])"
  by (simp add: Stop_def)

lemma Start_makes_running: "Start b = Inr (b1, calls) \<Longrightarrow> IsRunning b1"
  by (auto simp: Start_def IsRunning_def split: if_splits sum.splits)

lemma Stop_makes_idle: "Stop b = Inr (b1, calls) \<Longrightarrow> \<not> IsRunning b1"
  by (auto simp: Stop_def IsRunning_def split: if_splits sum.splits)

text \<open>
  C9. \<open>Start\<close> on a running backend and \<open>Stop\<close> on an idle one return at once: the
  backend is returned as it was and no provider is called. Hence a second \<open>Start\<close>
  after a \<open>Start\<close>, and a second \<open>Stop\<close> after a \<open>Stop\<close>, change nothing.
\<close>

theorem C9_start_stop_noop:
  "(IsRunning b \<longrightarrow> Start b = Inr (b, [])) \<and>
   (\<not> IsRunning b \<longrightarrow> Stop b = Inr (b, [])) \<and>
   (\<forall>b1 calls. Start b = Inr (b1, calls) \<longrightarrow> Start b1 = Inr (b1, [])) \<and>
   (\<forall>b1 calls. Stop b = Inr (b1, calls) \<longrightarrow> Stop b1 = Inr (b1, []))"
proof -
  have "Start b1 = Inr (b1, [])" if "Start b = Inr (b1, calls)" for b1 calls
    using Start_makes_running [OF that] by (rule Start_running)
  moreover have "Stop b1 = Inr (b1, [])" if "Stop b = Inr (b1, calls)" for b1 calls
    using Stop_makes_idle [OF that] by (rule Stop_idle)
  ultimately show ?thesis
    using Start_running [of b] Stop_idle [of b] by blast
qed

theorem C9_start_stop_noop_witness:
  "\<not> IsRunning idleBackend \<and> Stop idleBackend = Inr (idleBackend, []) \<and>
   Start idleBackend =
     Inr (runningBackend, [ProviderStart Hue, ProviderStart (OtherProvider 0)]) \<and>
   IsRunning runningBackend \<and> Start runningBackend = Inr (runningBackend, [])"
  using C9_start_stop_noop [of idleBackend] C9_start_stop_noop [of runningBackend]
  by (simp add: Start_def IsRunning_def fixture_defs runningBackend_def)

section \<open>Flattening and the partition scan\<close>

lemma flattenLoop_eq:
  "flattenLoop ds boxes devs calls =
     (boxes @ concat (map boxesOf ds),
      devs @ concat (map (\<lambda>d. replicate (length (boxesOf d)) (device d)) ds),
      calls @ map (\<lambda>d. DeviceQuery (GetUniqueId (device d))) ds)"
  by (induction ds arbitrary: boxes devs calls) (simp_all add: Let_def)

lemma length_concat_replicate:
  "length (concat (map (\<lambda>d. replicate (length (f d)) (g d)) ds)) = length (concat (map f ds))"
  by (induction ds) simp_all


lemma advanceBegin_result:
  "devicesBegin u = At i \<Longrightarrow> colorsBegin u = At i \<Longrightarrow> boundingBoxesBegin u = At i \<Longrightarrow>
   i \<le> length devs \<Longrightarrow>
   \<exists>k. i \<le> k \<and> k \<le> length devs \<and>
       advanceBegin devs t u = u\<lparr>colorsBegin := At k, devicesBegin := At k, boundingBoxesBegin := At k\<rparr> \<and>
       (\<forall>j. i \<le> j \<and> j < k \<longrightarrow> GetType (devs ! j) \<noteq> t) \<and>
       (k < length devs \<longrightarrow> GetType (devs ! k) = t)"
proof (induction devs t u arbitrary: i rule: advanceBegin.induct)
  case (1 devs t u)
  show ?case
  proof (cases "i < length devs \<and> GetType (devs ! i) \<noteq> t")
    case True
    let ?u = "u\<lparr>colorsBegin := incr (colorsBegin u), devicesBegin := incr (devicesBegin u),
                boundingBoxesBegin := incr (boundingBoxesBegin u)\<rparr>"
    have "\<exists>k. Suc i \<le> k \<and> k \<le> length devs \<and>
       advanceBegin devs t ?u = ?u\<lparr>colorsBegin := At k, devicesBegin := At k, boundingBoxesBegin := At k\<rparr> \<and>
       (\<forall>j. Suc i \<le> j \<and> j < k \<longrightarrow> GetType (devs ! j) \<noteq> t) \<and>
       (k < length devs \<longrightarrow> GetType (devs ! k) = t)"
      using True "1.prems" by (intro "1.IH" [of i "Suc i"]) simp_all
    then obtain k where k: "Suc i \<le> k" "k \<le> length devs"
      "advanceBegin devs t ?u = ?u\<lparr>colorsBegin := At k, devicesBegin := At k, boundingBoxesBegin := At k\<rparr>"
      "\<forall>j. Suc i \<le> j \<and> j < k \<longrightarrow> GetType (devs ! j) \<noteq> t"
      "k < length devs \<longrightarrow> GetType (devs ! k) = t" by blast
    have step: "advanceBegin devs t u = advanceBegin devs t ?u"
      using True "1.prems" by (subst advanceBegin.simps) simp
    have low: "GetType (devs ! j) \<noteq> t" if "i \<le> j" "j < k" for j
    proof (cases "j = i")
      case True
      with \<open>i < length devs \<and> GetType (devs ! i) \<noteq> t\<close> show ?thesis by simp
    next
      case False
      with that have "Suc i \<le> j" by simp
      with k(4) that show ?thesis by blast
    qed
    have "advanceBegin devs t u = u\<lparr>colorsBegin := At k, devicesBegin := At k, boundingBoxesBegin := At k\<rparr>"
      using step k(3) by simp
    with k(1,2,5) low show ?thesis
      by (intro exI [of _ k]) auto
  next
    case False
    have "advanceBegin devs t u = u"
      using False "1.prems" by (subst advanceBegin.simps) auto
    moreover have "u\<lparr>colorsBegin := At i, devicesBegin := At i, boundingBoxesBegin := At i\<rparr> = u"
      using "1.prems" by simp
    ultimately show ?thesis
      using False "1.prems" by (intro exI [of _ i]) auto
  qed
qed


lemma advanceEnd_result:
  "devicesEnd u = At i \<Longrightarrow> colorsEnd u = At i \<Longrightarrow> boundingBoxesEnd u = At i \<Longrightarrow>
   i \<le> length devs \<Longrightarrow>
   \<exists>k. i \<le> k \<and> k \<le> length devs \<and>
       advanceEnd devs t u = u\<lparr>colorsEnd := At k, devicesEnd := At k, boundingBoxesEnd := At k\<rparr> \<and>
       (\<forall>j. i \<le> j \<and> j < k \<longrightarrow> GetType (devs ! j) = t) \<and>
       (k < length devs \<longrightarrow> GetType (devs ! k) \<noteq> t)"
proof (induction devs t u arbitrary: i rule: advanceEnd.induct)
  case (1 devs t u)
  show ?case
  proof (cases "i < length devs \<and> GetType (devs ! i) = t")
    case True
    let ?u = "u\<lparr>colorsEnd := incr (colorsEnd u), devicesEnd := incr (devicesEnd u),
                boundingBoxesEnd := incr (boundingBoxesEnd u)\<rparr>"
    have "\<exists>k. Suc i \<le> k \<and> k \<le> length devs \<and>
       advanceEnd devs t ?u = ?u\<lparr>colorsEnd := At k, devicesEnd := At k, boundingBoxesEnd := At k\<rparr> \<and>
       (\<forall>j. Suc i \<le> j \<and> j < k \<longrightarrow> GetType (devs ! j) = t) \<and>
       (k < length devs \<longrightarrow> GetType (devs ! k) \<noteq> t)"
      using True "1.prems" by (intro "1.IH" [of i "Suc i"]) simp_all
    then obtain k where k: "Suc i \<le> k" "k \<le> length devs"
      "advanceEnd devs t ?u = ?u\<lparr>colorsEnd := At k, devicesEnd := At k, boundingBoxesEnd := At k\<rparr>"
      "\<forall>j. Suc i \<le> j \<and> j < k \<longrightarrow> GetType (devs ! j) = t"
      "k < length devs \<longrightarrow> GetType (devs ! k) \<noteq> t" by blast
    have step: "advanceEnd devs t u = advanceEnd devs t ?u"
      using True "1.prems" by (subst advanceEnd.simps) simp
    have run: "GetType (devs ! j) = t" if "i \<le> j" "j < k" for j
    proof (cases "j = i")
      case True
      with \<open>i < length devs \<and> GetType (devs ! i) = t\<close> show ?thesis by simp
    next
      case False
      with that have "Suc i \<le> j" by simp
      with k(4) that show ?thesis by blast
    qed
    have "advanceEnd devs t u = u\<lparr>colorsEnd := At k, devicesEnd := At k, boundingBoxesEnd := At k\<rparr>"
      using step k(3) by simp
    with k(1,2,5) run show ?thesis
      by (intro exI [of _ k]) auto
  next
    case False
    have "advanceEnd devs t u = u"
      using False "1.prems" by (subst advanceEnd.simps) auto
    moreover have "u\<lparr>colorsEnd := At i, devicesEnd := At i, boundingBoxesEnd := At i\<rparr> = u"
      using "1.prems" by simp
    ultimately show ?thesis
      using False "1.prems" by (intro exI [of _ i]) auto
  qed
qed

lemma partitionRange_result:
  "\<exists>bgn en. bgn \<le> en \<and> en \<le> length devs \<and>
     partitionRange devs t u0 =
       u0\<lparr>boundingBoxesDirty := True, colorsDirty := True, devicesDirty := True,
          colorsBegin := At bgn, colorsEnd := At en,
          devicesBegin := At bgn, devicesEnd := At en,
          boundingBoxesBegin := At bgn, boundingBoxesEnd := At en\<rparr> \<and>
     (\<forall>j. j < bgn \<longrightarrow> GetType (devs ! j) \<noteq> t) \<and>
     (bgn < length devs \<longrightarrow> GetType (devs ! bgn) = t) \<and>
     (\<forall>j. bgn \<le> j \<and> j < en \<longrightarrow> GetType (devs ! j) = t) \<and>
     (en < length devs \<longrightarrow> GetType (devs ! en) \<noteq> t)"
proof -
  let ?u1 = "u0\<lparr>boundingBoxesDirty := True, colorsDirty := True, devicesDirty := True,
                colorsBegin := At 0, devicesBegin := At 0, boundingBoxesBegin := At 0\<rparr>"
  obtain bgn where bgn: "bgn \<le> length devs"
    "advanceBegin devs t ?u1 =
       ?u1\<lparr>colorsBegin := At bgn, devicesBegin := At bgn, boundingBoxesBegin := At bgn\<rparr>"
    "\<forall>j. 0 \<le> j \<and> j < bgn \<longrightarrow> GetType (devs ! j) \<noteq> t"
    "bgn < length devs \<longrightarrow> GetType (devs ! bgn) = t"
    using advanceBegin_result [of ?u1 0 devs t] by auto
  let ?u2 = "advanceBegin devs t ?u1"
  let ?u3 = "?u2\<lparr>colorsEnd := colorsBegin ?u2, devicesEnd := devicesBegin ?u2,
                  boundingBoxesEnd := boundingBoxesBegin ?u2\<rparr>"
  have ends: "devicesEnd ?u3 = At bgn" "colorsEnd ?u3 = At bgn" "boundingBoxesEnd ?u3 = At bgn"
    by (simp_all add: bgn(2))
  obtain en where en: "bgn \<le> en" "en \<le> length devs"
    "advanceEnd devs t ?u3 =
       ?u3\<lparr>colorsEnd := At en, devicesEnd := At en, boundingBoxesEnd := At en\<rparr>"
    "\<forall>j. bgn \<le> j \<and> j < en \<longrightarrow> GetType (devs ! j) = t"
    "en < length devs \<longrightarrow> GetType (devs ! en) \<noteq> t"
    using advanceEnd_result [OF ends bgn(1), of t] by auto
  have "partitionRange devs t u0 = advanceEnd devs t ?u3"
    by (simp add: partitionRange_def Let_def)
  also have "\<dots> = ?u3\<lparr>colorsEnd := At en, devicesEnd := At en, boundingBoxesEnd := At en\<rparr>"
    by (rule en(3))
  also have "\<dots> = u0\<lparr>boundingBoxesDirty := True, colorsDirty := True, devicesDirty := True,
          colorsBegin := At bgn, colorsEnd := At en,
          devicesBegin := At bgn, devicesEnd := At en,
          boundingBoxesBegin := At bgn, boundingBoxesEnd := At en\<rparr>"
    by (simp add: bgn(2))
  finally show ?thesis
    using bgn(3,4) en(1,2,4,5) by (intro exI [of _ bgn] exI [of _ en]) simp
qed

section \<open>The entries of lightUpdates, and what one tick returns\<close>

lemma subscript_keeps:
  "onlyValueInit (fst (subscript lu t)) \<and> snd (subscript lu t) = valueInitParams"
  if "onlyValueInit lu"
proof (cases "lu t")
  case None
  with that show ?thesis
    by (simp add: onlyValueInit_def subscript_def)
next
  case (Some u)
  moreover from that have "lu t = None \<or> lu t = Some valueInitParams"
    by (simp add: onlyValueInit_def)
  ultimately show ?thesis
    using that by (simp add: subscript_def)
qed

lemma partitionLoop_keeps: "onlyValueInit lu \<Longrightarrow> onlyValueInit (partitionLoop devs dps lu)"
proof (induction dps arbitrary: lu)
  case Nil
  then show ?case by simp
next
  case (Cons dp dps)
  have "onlyValueInit (fst (subscript lu (fst dp)))"
    using Cons.prems subscript_keeps by blast
  then show ?case
    using Cons.IH by (simp add: split_beta Let_def)
qed

lemma dispatch_result:
  "onlyValueInit lu \<Longrightarrow> noNullProvider dps \<Longrightarrow>
   \<exists>lu1. dispatch dps lu = Inr (lu1, map (\<lambda>dp. ProviderUpdate (fst dp) valueInitParams) dps) \<and>
         onlyValueInit lu1"
proof (induction dps arbitrary: lu)
  case Nil
  then show ?case by simp
next
  case (Cons dp dps)
  obtain t p where dp: "dp = (t, Some p)"
    using Cons.prems(2) by (cases dp) (auto simp: noNullProvider_def)
  have keep: "onlyValueInit (fst (subscript lu t))" and got: "snd (subscript lu t) = valueInitParams"
    using Cons.prems(1) subscript_keeps by blast+
  have "noNullProvider dps"
    using Cons.prems(2) by (simp add: noNullProvider_def)
  from Cons.IH [OF keep this] obtain lu1 where
    "dispatch dps (fst (subscript lu t)) =
       Inr (lu1, map (\<lambda>dp. ProviderUpdate (fst dp) valueInitParams) dps)" "onlyValueInit lu1"
    by blast
  then show ?case
    using got by (simp add: dp split_beta)
qed

lemma refresh_result:
  assumes "refresh env b r = Inr (r1, calls)"
  shows "\<exists>sortedDevices.
           std_sort env (sortLambda env (deviceProviders b))
             (devicesInScene (sceneAt (scenes b) (activeSceneIndex b))) = Inr sortedDevices \<and>
           renderScene r1 = (sceneAt (scenes b) (activeSceneIndex b))\<lparr>devicesInScene := sortedDevices\<rparr> \<and>
           boundingBoxes r1 = concat (map boxesOf sortedDevices) \<and>
           devices r1 = concat (map (\<lambda>d. replicate (length (boxesOf d)) (device d)) sortedDevices) \<and>
           colors r1 = resize (length (boundingBoxes r1)) (defaultColor env) (colors r) \<and>
           lightUpdates r1 = partitionLoop (devices r1) (deviceProviders b) (lightUpdates r) \<and>
           calls = map (\<lambda>d. DeviceQuery (GetUniqueId (device d))) sortedDevices"
  using assms
  by (auto simp: refresh_def Let_def flattenLoop_eq split: sum.splits)

lemma length_resize: "length (resize n c xs) = n"
  by (simp add: resize_def)

lemma refresh_keeps:
  assumes "refresh env b r = Inr (r1, calls)" "onlyValueInit (lightUpdates r)"
  shows "onlyValueInit (lightUpdates r1)"
  using refresh_result [OF assms(1)] partitionLoop_keeps [OF assms(2)] by auto

lemma refresh_calls:
  assumes "refresh env b r = Inr (r1, calls)"
  shows "ProviderUpdate t params \<notin> set calls"
  using refresh_result [OF assms] by auto

lemma tick_result:
  assumes inv: "onlyValueInit (lightUpdates r)"
    and nonull: "noNullProvider (deviceProviders b)"
    and pre: "(if scenesAreDirty b then refresh env b r else Inr (r, [])) = Inr (r0, calls0)"
  shows "\<exists>lu. tick env b r deltaTime =
           Inr (r0\<lparr>renderScene := (renderScene r0)
                      \<lparr>effects := fst (runEffects deltaTime (boundingBoxes r0)
                                         (effects (renderScene r0)) (colors r0))\<rparr>,
                   colors := snd (runEffects deltaTime (boundingBoxes r0)
                                    (effects (renderScene r0)) (colors r0)),
                   lightUpdates := lu\<rparr>,
                calls0 @ map (\<lambda>dp. ProviderUpdate (fst dp) valueInitParams) (deviceProviders b)) \<and>
         onlyValueInit lu"
proof -
  have inv0: "onlyValueInit (lightUpdates r0)"
  proof (cases "scenesAreDirty b")
    case True
    with pre have "refresh env b r = Inr (r0, calls0)" by simp
    from refresh_keeps [OF this inv] show ?thesis .
  next
    case False
    with pre inv show ?thesis by simp
  qed
  from dispatch_result [OF inv0 nonull] obtain lu where
    lu: "dispatch (deviceProviders b) (lightUpdates r0) =
           Inr (lu, map (\<lambda>dp. ProviderUpdate (fst dp) valueInitParams) (deviceProviders b))"
        "onlyValueInit lu"
    by blast
  have "tick env b r deltaTime =
           Inr (r0\<lparr>renderScene := (renderScene r0)
                      \<lparr>effects := fst (runEffects deltaTime (boundingBoxes r0)
                                         (effects (renderScene r0)) (colors r0))\<rparr>,
                   colors := snd (runEffects deltaTime (boundingBoxes r0)
                                    (effects (renderScene r0)) (colors r0)),
                   lightUpdates := lu\<rparr>,
                calls0 @ map (\<lambda>dp. ProviderUpdate (fst dp) valueInitParams) (deviceProviders b))"
    unfolding tick_def pre by (simp add: split_beta Let_def lu(1))
  with lu(2) show ?thesis by blast
qed

lemma partitionRange_absent:
  assumes "t \<notin> GetType ` set devs"
  shows "emptyRanges (partitionRange devs t u0) \<and>
         devicesBegin (partitionRange devs t u0) = At (length devs)"
proof -
  from partitionRange_result [of devs t u0] obtain bgn en where
    be: "bgn \<le> en" "en \<le> length devs"
    and eq: "partitionRange devs t u0 =
       u0\<lparr>boundingBoxesDirty := True, colorsDirty := True, devicesDirty := True,
          colorsBegin := At bgn, colorsEnd := At en,
          devicesBegin := At bgn, devicesEnd := At en,
          boundingBoxesBegin := At bgn, boundingBoxesEnd := At en\<rparr>"
    and first: "bgn < length devs \<longrightarrow> GetType (devs ! bgn) = t"
    by blast
  have "bgn = length devs"
  proof (rule ccontr)
    assume "bgn \<noteq> length devs"
    with be have "bgn < length devs" by simp
    with first have "GetType (devs ! bgn) = t" "devs ! bgn \<in> set devs" by simp_all
    with assms show False by blast
  qed
  with be have "en = length devs" by simp
  with \<open>bgn = length devs\<close> eq show ?thesis
    by (simp add: emptyRanges_def)
qed

lemma partitionRange_inRange:
  assumes "inRange i (devicesBegin (partitionRange devs t u0)) (devicesEnd (partitionRange devs t u0))"
  shows "i < length devs \<and> GetType (devs ! i) = t"
proof -
  from partitionRange_result [of devs t u0] obtain bgn en where
    be: "bgn \<le> en" "en \<le> length devs"
    and eq: "partitionRange devs t u0 =
       u0\<lparr>boundingBoxesDirty := True, colorsDirty := True, devicesDirty := True,
          colorsBegin := At bgn, colorsEnd := At en,
          devicesBegin := At bgn, devicesEnd := At en,
          boundingBoxesBegin := At bgn, boundingBoxesEnd := At en\<rparr>"
    and run: "\<forall>j. bgn \<le> j \<and> j < en \<longrightarrow> GetType (devs ! j) = t"
    by blast
  from assms eq have "bgn \<le> i \<and> i < en" by simp
  with be run show ?thesis by auto
qed

lemma sceneAt_in_range:
  assumes "- (2 ^ 31) \<le> index" "index < 2 ^ 31" "length ss < 2 ^ 63"
  shows "sceneAt ss index =
           (if 0 \<le> index \<and> index < int (length ss) then ss ! nat index else emptyScene)"
proof (cases "0 \<le> index")
  case True
  with assms have "index mod 2 ^ 64 = index" by simp
  with True show ?thesis
    by (auto simp: sceneAt_def Let_def)
next
  case False
  with assms have "(index + 2 ^ 64) mod 2 ^ 64 = index + 2 ^ 64"
    by (intro mod_pos_pos_trivial) simp_all
  then have "index mod 2 ^ 64 = index + 2 ^ 64"
    by simp
  with assms have "nat (index mod 2 ^ 64) \<ge> 2 ^ 63" by simp
  with assms False show ?thesis
    by (simp add: sceneAt_def Let_def)
qed

lemma dispatch_succeeds:
  "noNullProvider dps \<Longrightarrow> \<exists>lu1 calls. dispatch dps lu = Inr (lu1, calls) \<and> length calls = length dps"
proof (induction dps arbitrary: lu)
  case Nil
  then show ?case by simp
next
  case (Cons dp dps)
  obtain t p where dp: "dp = (t, Some p)"
    using Cons.prems by (cases dp) (auto simp: noNullProvider_def)
  have "noNullProvider dps"
    using Cons.prems by (simp add: noNullProvider_def)
  from Cons.IH [OF this, of "fst (subscript lu t)"] show ?case
    by (auto simp: dp split_beta)
qed


text \<open>
  The thread starts with an empty \<open>lightUpdates\<close>, and no tick puts anything but
  value-initialised entries into it.
\<close>

lemma dispatch_keeps:
  "dispatch dps lu = Inr (lu1, calls) \<Longrightarrow> onlyValueInit lu \<Longrightarrow> onlyValueInit lu1"
proof (induction dps arbitrary: lu lu1 calls)
  case Nil
  then show ?case by simp
next
  case (Cons dp dps)
  obtain t q where dp: "dp = (t, q)" by (cases dp)
  show ?case
  proof (cases q)
    case None
    with Cons.prems dp show ?thesis by simp
  next
    case (Some p)
    with Cons.prems(1) dp obtain calls2 where
      "dispatch dps (fst (subscript lu t)) = Inr (lu1, calls2)"
      by (auto simp: split_beta split: sum.splits)
    moreover have "onlyValueInit (fst (subscript lu t))"
      using Cons.prems(2) subscript_keeps by blast
    ultimately show ?thesis
      by (rule Cons.IH)
  qed
qed

lemma tick_keeps:
  assumes "tick env b r deltaTime = Inr (r1, calls)" "onlyValueInit (lightUpdates r)"
  shows "onlyValueInit (lightUpdates r1)"
proof -
  from assms(1) obtain r0 calls0 where
    pre: "(if scenesAreDirty b then refresh env b r else Inr (r, [])) = Inr (r0, calls0)"
    by (auto simp: tick_def split: sum.splits)
  have inv0: "onlyValueInit (lightUpdates r0)"
  proof (cases "scenesAreDirty b")
    case True
    with pre have "refresh env b r = Inr (r0, calls0)" by simp
    from refresh_keeps [OF this assms(2)] show ?thesis .
  next
    case False
    with pre assms(2) show ?thesis by simp
  qed
  from assms(1) obtain calls2 where
    "dispatch (deviceProviders b) (lightUpdates r0) = Inr (lightUpdates r1, calls2)"
    unfolding tick_def pre by (auto simp: split_beta Let_def split: sum.splits)
  from dispatch_keeps [OF this inv0] show ?thesis .
qed

lemma runTicks_keeps:
  "runTicks env b r deltaTimes = Inr (r1, calls) \<Longrightarrow> onlyValueInit (lightUpdates r) \<Longrightarrow>
   onlyValueInit (lightUpdates r1)"
proof (induction deltaTimes arbitrary: r calls)
  case Nil
  then show ?case by simp
next
  case (Cons deltaTime rest)
  from Cons.prems(1) obtain r0 calls0 later where
    first: "tick env b r deltaTime = Inr (r0, calls0)"
    and rest: "runTicks env b r0 rest = Inr (r1, later)"
    by (auto split: sum.splits)
  from tick_keeps [OF first Cons.prems(2)] have "onlyValueInit (lightUpdates r0)" .
  with rest show ?case
    by (rule Cons.IH)
qed

lemma Start_locals:
  "\<not> IsRunning b \<Longrightarrow> Start b = Inr (b1, calls) \<Longrightarrow>
   \<exists>r0. thread b1 = Some r0 \<and> onlyValueInit (lightUpdates r0)"
  by (auto simp: Start_def onlyValueInit_def split: sum.splits)

section \<open>The buffers after the flatten step\<close>

text \<open>
  For every scene the dirty block leaves the three buffers with one length, and in
  every run of the thread (its \<open>lightUpdates\<close> holds value-initialised entries only)
  no range kept in \<open>lightUpdates\<close> holds an index.
\<close>

lemma refresh_lengths:
  assumes "refresh env b r = Inr (r1, calls)"
  shows "length (boundingBoxes r1) = length (devices r1) \<and>
         length (colors r1) = length (devices r1)"
proof -
  from refresh_result [OF assms] obtain sortedDevices where
    boxes: "boundingBoxes r1 = concat (map boxesOf sortedDevices)"
    and devs: "devices r1 =
       concat (map (\<lambda>d. replicate (length (boxesOf d)) (device d)) sortedDevices)"
    and cols: "colors r1 = resize (length (boundingBoxes r1)) (defaultColor env) (colors r)"
    by blast
  have "length (boundingBoxes r1) = length (devices r1)"
    unfolding boxes devs by (rule length_concat_replicate [symmetric])
  moreover have "length (colors r1) = length (boundingBoxes r1)"
    by (subst cols) (rule length_resize)
  ultimately show ?thesis by simp
qed

lemma refresh_keeps_no_range:
  assumes "refresh env b r = Inr (r1, calls)" "onlyValueInit (lightUpdates r)"
    and "lightUpdates r1 t = Some u"
  shows "\<not> inRange i (devicesBegin u) (devicesEnd u)"
proof -
  from refresh_keeps [OF assms(1,2)] have "lightUpdates r1 t = None \<or>
      lightUpdates r1 t = Some valueInitParams"
    by (simp add: onlyValueInit_def)
  with assms(3) have "u = valueInitParams" by simp
  then show ?thesis by (simp add: valueInitParams_def)
qed

lemma refresh_idle:
  "refresh testEnv idleBackend threadLocals0 =
     Inr (flatLocals, [DeviceQuery ''A-1'', DeviceQuery ''B-1''])"
  by (simp add: tick_defs sort_defs fixture_defs flatLocals_def)

lemma range_A:
  "partitionRange [deviceA, deviceB, deviceB] Hue valueInitParams =
     \<lparr>boundingBoxesDirty = True, colorsDirty = True, devicesDirty = True,
      colorsBegin = At 0, colorsEnd = At 1, devicesBegin = At 0, devicesEnd = At 1,
      boundingBoxesBegin = At 0, boundingBoxesEnd = At 1\<rparr>"
  by (simp add: partitionRange_def advanceBegin.simps advanceEnd.simps valueInitParams_def
        deviceA_def deviceB_def fixedDevice_def)

lemma range_B:
  "partitionRange [deviceA, deviceB, deviceB] (OtherProvider 0) valueInitParams =
     \<lparr>boundingBoxesDirty = True, colorsDirty = True, devicesDirty = True,
      colorsBegin = At 1, colorsEnd = At 3, devicesBegin = At 1, devicesEnd = At 3,
      boundingBoxesBegin = At 1, boundingBoxesEnd = At 3\<rparr>"
  by (simp add: partitionRange_def advanceBegin.simps advanceEnd.simps valueInitParams_def
        deviceA_def deviceB_def fixedDevice_def)

text \<open>
  C5. On the scene of C1 (a device of provider \<open>Hue\<close> with one box, a device of the
  other provider with two) the dirty block leaves three boxes, three devices and three
  colours: the lengths agree. The partition ranges it leaves are the entries of
  \<open>lightUpdates\<close>, and these are value-initialised, since line 101 copies the entry and
  the scan of lines 106 to 126 works on the copy. Index 0 holds a device of \<open>Hue\<close> and
  lies in no range of the entry of \<open>Hue\<close>; indices 1 and 2 hold devices of the other
  provider and lie in no range of its entry. The ranges that the scan computed, and
  that the loop drops, do hold them.
\<close>

theorem C5_kept_ranges_hold_no_index:
  "refresh testEnv idleBackend threadLocals0 =
     Inr (flatLocals, [DeviceQuery ''A-1'', DeviceQuery ''B-1'']) \<and>
   length (boundingBoxes flatLocals) = 3 \<and> length (devices flatLocals) = 3 \<and>
   length (colors flatLocals) = 3 \<and>
   map GetType (devices flatLocals) = [Hue, OtherProvider 0, OtherProvider 0] \<and>
   lightUpdates flatLocals Hue = Some valueInitParams \<and>
   lightUpdates flatLocals (OtherProvider 0) = Some valueInitParams \<and>
   \<not> inRange 0 (devicesBegin valueInitParams) (devicesEnd valueInitParams) \<and>
   \<not> inRange 1 (devicesBegin valueInitParams) (devicesEnd valueInitParams) \<and>
   \<not> inRange 2 (devicesBegin valueInitParams) (devicesEnd valueInitParams) \<and>
   inRange 0 (devicesBegin (partitionRange (devices flatLocals) Hue valueInitParams))
             (devicesEnd (partitionRange (devices flatLocals) Hue valueInitParams)) \<and>
   inRange 1 (devicesBegin (partitionRange (devices flatLocals) (OtherProvider 0) valueInitParams))
             (devicesEnd (partitionRange (devices flatLocals) (OtherProvider 0) valueInitParams)) \<and>
   inRange 2 (devicesBegin (partitionRange (devices flatLocals) (OtherProvider 0) valueInitParams))
             (devicesEnd (partitionRange (devices flatLocals) (OtherProvider 0) valueInitParams))"
proof -
  have "devices flatLocals = [deviceA, deviceB, deviceB]"
    and "boundingBoxes flatLocals = [10, 20, 21]" and "colors flatLocals = [0, 0, 0]"
    and "lightUpdates flatLocals Hue = Some valueInitParams"
    and "lightUpdates flatLocals (OtherProvider 0) = Some valueInitParams"
    by (simp_all add: flatLocals_def)
  moreover have "map GetType [deviceA, deviceB, deviceB] = [Hue, OtherProvider 0, OtherProvider 0]"
    by (simp add: deviceA_def deviceB_def fixedDevice_def)
  moreover have "\<not> inRange i (devicesBegin valueInitParams) (devicesEnd valueInitParams)" for i
    by (simp add: valueInitParams_def)
  ultimately show ?thesis
    by (simp add: refresh_idle range_A range_B)
qed

section \<open>Dispatch to a provider without devices\<close>

text \<open>
  C7. In every run of the thread (its \<open>lightUpdates\<close> holds value-initialised entries
  only), a tick on a registry without null entries returns, and a registered provider
  with no device in the flattened snapshot is handed a \<open>LightUpdateParams\<close> whose
  begin and end cursors are equal for colours, devices and bounding boxes. The range
  the scan computes for such a provider is empty too.
\<close>

theorem C7_empty_range:
  assumes inv: "onlyValueInit (lightUpdates r)"
    and nonull: "noNullProvider (deviceProviders b)"
    and sorts: "scenesAreDirty b \<longrightarrow>
       (\<exists>s. std_sort env (sortLambda env (deviceProviders b))
              (devicesInScene (sceneAt (scenes b) (activeSceneIndex b))) = Inr s)"
    and reg: "(t, Some p) \<in> set (deviceProviders b)"
  shows "\<exists>r1 calls. tick env b r deltaTime = Inr (r1, calls) \<and>
           onlyValueInit (lightUpdates r1) \<and>
           (t \<notin> GetType ` set (devices r1) \<longrightarrow>
              ProviderUpdate t valueInitParams \<in> set calls \<and>
              (\<forall>params. ProviderUpdate t params \<in> set calls \<longrightarrow> emptyRanges params) \<and>
              (\<forall>u0. emptyRanges (partitionRange (devices r1) t u0)))"
proof -
  obtain r0 calls0 where
    pre: "(if scenesAreDirty b then refresh env b r else Inr (r, [])) = Inr (r0, calls0)"
  proof (cases "scenesAreDirty b")
    case True
    with sorts obtain s where "std_sort env (sortLambda env (deviceProviders b))
              (devicesInScene (sceneAt (scenes b) (activeSceneIndex b))) = Inr s" by blast
    then have "\<exists>r0 calls0. refresh env b r = Inr (r0, calls0)"
      by (simp add: refresh_def Let_def split_beta)
    with True that show ?thesis by auto
  next
    case False
    with that show ?thesis by simp
  qed
  have quiet: "ProviderUpdate t params \<notin> set calls0" for params
  proof (cases "scenesAreDirty b")
    case True
    with pre have "refresh env b r = Inr (r0, calls0)" by simp
    from refresh_calls [OF this] show ?thesis .
  next
    case False
    with pre show ?thesis by simp
  qed
  from tick_result [OF inv nonull pre, of deltaTime] obtain lu r1 calls where
    t: "tick env b r deltaTime = Inr (r1, calls)"
    and r1: "devices r1 = devices r0" "lightUpdates r1 = lu" "onlyValueInit lu"
    and calls: "calls = calls0 @ map (\<lambda>dp. ProviderUpdate (fst dp) valueInitParams) (deviceProviders b)"
    by fastforce
  have sent: "ProviderUpdate t valueInitParams \<in> set calls"
    using reg unfolding calls by force
  have only: "emptyRanges params" if "ProviderUpdate t params \<in> set calls" for params
  proof -
    from that quiet have "params = valueInitParams"
      unfolding calls by auto
    then show ?thesis by (simp add: emptyRanges_def valueInitParams_def)
  qed
  show ?thesis
    using t r1 sent only partitionRange_absent by blast
qed

lemma tick_solo:
  "tick testEnv soloBackend threadLocals0 0 =
     Inr (threadLocals0\<lparr>renderScene := \<lparr>devicesInScene = [\<lparr>device = deviceA, transform = origin\<rparr>],
                                             effects = [fillEffect 7]\<rparr>,
                       lightUpdates := [Hue \<mapsto> valueInitParams, OtherProvider 0 \<mapsto> valueInitParams],
                       colors := [7], boundingBoxes := [10], devices := [deviceA]\<rparr>,
          [DeviceQuery ''A-1'', ProviderUpdate Hue valueInitParams,
           ProviderUpdate (OtherProvider 0) valueInitParams])"
  by (simp add: tick_defs sort_defs fixture_defs soloBackend_def)

theorem C7_empty_range_witness:
  "tick testEnv soloBackend threadLocals0 0 =
     Inr (threadLocals0\<lparr>renderScene := \<lparr>devicesInScene = [\<lparr>device = deviceA, transform = origin\<rparr>],
                                             effects = [fillEffect 7]\<rparr>,
                       lightUpdates := [Hue \<mapsto> valueInitParams, OtherProvider 0 \<mapsto> valueInitParams],
                       colors := [7], boundingBoxes := [10], devices := [deviceA]\<rparr>,
          [DeviceQuery ''A-1'', ProviderUpdate Hue valueInitParams,
           ProviderUpdate (OtherProvider 0) valueInitParams]) \<and>
   OtherProvider 0 \<notin> GetType ` set [deviceA] \<and>
   emptyRanges valueInitParams \<and>
   emptyRanges (partitionRange [deviceA] (OtherProvider 0) valueInitParams)"
proof -
  have inv: "onlyValueInit (lightUpdates threadLocals0)"
    by (simp add: onlyValueInit_def threadLocals0_def)
  have nonull: "noNullProvider (deviceProviders soloBackend)"
    by (simp add: noNullProvider_def soloBackend_def idleBackend_def twoProviders_def)
  have sorts: "scenesAreDirty soloBackend \<longrightarrow>
       (\<exists>s. std_sort testEnv (sortLambda testEnv (deviceProviders soloBackend))
              (devicesInScene (sceneAt (scenes soloBackend) (activeSceneIndex soloBackend))) = Inr s)"
    by (simp add: soloBackend_def idleBackend_def testEnv_def sceneAt_def sort_defs)
  have reg: "(OtherProvider 0, Some (plainProvider [deviceB])) \<in> set (deviceProviders soloBackend)"
    by (simp add: soloBackend_def idleBackend_def twoProviders_def)
  have absent: "OtherProvider 0 \<notin> GetType ` set [deviceA]"
    by (simp add: deviceA_def fixedDevice_def)
  from C7_empty_range [OF inv nonull sorts reg, of 0] absent
  have "emptyRanges valueInitParams"
    and "emptyRanges (partitionRange [deviceA] (OtherProvider 0) valueInitParams)"
    unfolding tick_solo by auto
  with tick_solo absent show ?thesis
    by simp
qed

section \<open>The scene a tick renders\<close>

text \<open>
  The loop of lines 131 to 135 as a fold over the effects: each effect is ticked, then
  updates the colours that the effects before it left.
\<close>

lemma runEffects_foldl:
  "foldl (\<lambda>(ran, cols) effect.
            (ran @ [effect\<lparr>effectState :=
                      fst (Update effect (Tick effect deltaTime (effectState effect)) boxes cols)\<rparr>],
             snd (Update effect (Tick effect deltaTime (effectState effect)) boxes cols)))
         (ran0, cols0) es =
     (ran0 @ fst (runEffects deltaTime boxes es cols0), snd (runEffects deltaTime boxes es cols0))"
  by (induction es arbitrary: ran0 cols0) (simp_all add: split_beta Let_def)

lemma tick_renders:
  assumes "tick env b r deltaTime = Inr (r1, calls)"
  shows "\<exists>r0 calls0.
           (if scenesAreDirty b then refresh env b r else Inr (r, [])) = Inr (r0, calls0) \<and>
           devicesInScene (renderScene r1) = devicesInScene (renderScene r0) \<and>
           boundingBoxes r1 = boundingBoxes r0 \<and> devices r1 = devices r0 \<and>
           effects (renderScene r1) =
             fst (runEffects deltaTime (boundingBoxes r0) (effects (renderScene r0)) (colors r0)) \<and>
           colors r1 =
             snd (runEffects deltaTime (boundingBoxes r0) (effects (renderScene r0)) (colors r0))"
  using assms by (auto simp: tick_def split_beta Let_def split: sum.splits)

lemma first_clean_tick:
  assumes "\<not> IsRunning b" "Start b = Inr (b1, calls)" "thread b1 = Some r0"
    and "\<not> scenesAreDirty later" "tick env later r0 deltaTime = Inr (r1, calls1)"
  shows "devicesInScene (renderScene r1)
           = devicesInScene (sceneAt (scenes b) (activeSceneIndex b))"
    and "(effects (renderScene r1), colors r1) =
           foldl (\<lambda>(ran, cols) effect.
                    (ran @ [effect\<lparr>effectState :=
                              fst (Update effect (Tick effect deltaTime (effectState effect))
                                     [] cols)\<rparr>],
                     snd (Update effect (Tick effect deltaTime (effectState effect))
                            [] cols)))
                 ([], []) (effects (sceneAt (scenes b) (activeSceneIndex b)))"
proof -
  from assms(1-3) have r0: "renderScene r0 = sceneAt (scenes b) (activeSceneIndex b)"
    "colors r0 = []" "boundingBoxes r0 = []"
    by (auto simp: Start_def split: sum.splits)
  from tick_renders [OF assms(5)] assms(4) have ran:
    "devicesInScene (renderScene r1) = devicesInScene (renderScene r0)"
    "effects (renderScene r1) =
       fst (runEffects deltaTime (boundingBoxes r0) (effects (renderScene r0)) (colors r0))"
    "colors r1 =
       snd (runEffects deltaTime (boundingBoxes r0) (effects (renderScene r0)) (colors r0))"
    by auto
  show "devicesInScene (renderScene r1)
           = devicesInScene (sceneAt (scenes b) (activeSceneIndex b))"
    using ran(1) r0(1) by simp
  show "(effects (renderScene r1), colors r1) =
           foldl (\<lambda>(ran, cols) effect.
                    (ran @ [effect\<lparr>effectState :=
                              fst (Update effect (Tick effect deltaTime (effectState effect))
                                     [] cols)\<rparr>],
                     snd (Update effect (Tick effect deltaTime (effectState effect))
                            [] cols)))
                 ([], []) (effects (sceneAt (scenes b) (activeSceneIndex b)))"
    unfolding runEffects_foldl using ran(2,3) r0 by simp
qed

text \<open>
  C8. The thread takes its snapshot from the scene list at \<open>activeSceneIndex\<close>, when it
  starts and on every dirty tick: the scene at that index when the index is in range,
  the empty scene when it is negative or not below the number of scenes. A tick that
  is not dirty, right after the start, renders the scene the backend had at the start,
  whatever the backend holds by then, on the empty buffers of a new thread. Every tick
  that returns renders one scene, the snapshot: on a dirty tick the scene just taken,
  its devices as \<^verbatim>\<open>std::sort\<close> returned them and the buffers flattened from them; on any
  other tick the snapshot and the buffers that the locals of the thread hold. Rendering
  is the run of the effects of that snapshot, each ticked and then updating the colours
  left by the effects before it, on the boxes of that snapshot; the locals keep the
  effects and the colours after that run. With the index out of range a dirty tick
  returns with three empty buffers after handing every provider its entry, provided
  no registry entry is null.
\<close>

theorem C8_one_scene_per_tick:
  fixes b :: "('b, 'c, 'e, 'p) Backend" and r :: "('b, 'c, 'e) Render"
  assumes int32: "- (2 ^ 31) \<le> activeSceneIndex b" "activeSceneIndex b < 2 ^ 31"
    and size: "length (scenes b) < 2 ^ 63"
  shows "sceneAt (scenes b) (activeSceneIndex b) =
           (if 0 \<le> activeSceneIndex b \<and> activeSceneIndex b < int (length (scenes b))
            then scenes b ! nat (activeSceneIndex b) else emptyScene) \<and>
         (\<not> IsRunning b \<longrightarrow>
           (\<forall>b1 calls. Start b = Inr (b1, calls) \<longrightarrow>
              (\<exists>r0. thread b1 = Some r0 \<and>
                    renderScene r0 = sceneAt (scenes b) (activeSceneIndex b)))) \<and>
         (\<forall>b1 calls r0 (later :: ('b, 'c, 'e, 'p) Backend) r1 calls1.
            \<not> IsRunning b \<and> Start b = Inr (b1, calls) \<and> thread b1 = Some r0 \<and>
            \<not> scenesAreDirty later \<and> tick env later r0 deltaTime = Inr (r1, calls1) \<longrightarrow>
              devicesInScene (renderScene r1)
                = devicesInScene (sceneAt (scenes b) (activeSceneIndex b)) \<and>
              (effects (renderScene r1), colors r1) =
                foldl (\<lambda>(ran, cols) effect.
                         (ran @ [effect\<lparr>effectState :=
                                   fst (Update effect (Tick effect deltaTime (effectState effect))
                                          [] cols)\<rparr>],
                          snd (Update effect (Tick effect deltaTime (effectState effect))
                                 [] cols)))
                      ([], []) (effects (sceneAt (scenes b) (activeSceneIndex b)))) \<and>
         (\<forall>r1 calls. tick env b r deltaTime = Inr (r1, calls) \<longrightarrow>
            (\<exists>snapshot cols0.
               (scenesAreDirty b \<longrightarrow>
                  std_sort env (sortLambda env (deviceProviders b))
                    (devicesInScene (sceneAt (scenes b) (activeSceneIndex b)))
                    = Inr (devicesInScene snapshot) \<and>
                  effects snapshot = effects (sceneAt (scenes b) (activeSceneIndex b)) \<and>
                  boundingBoxes r1 = concat (map boxesOf (devicesInScene snapshot)) \<and>
                  cols0 = resize (length (boundingBoxes r1)) (defaultColor env) (colors r)) \<and>
               (\<not> scenesAreDirty b \<longrightarrow>
                  snapshot = renderScene r \<and> boundingBoxes r1 = boundingBoxes r \<and>
                  devices r1 = devices r \<and> cols0 = colors r) \<and>
               devicesInScene (renderScene r1) = devicesInScene snapshot \<and>
               (effects (renderScene r1), colors r1) =
                 foldl (\<lambda>(ran, cols) effect.
                          (ran @ [effect\<lparr>effectState :=
                                    fst (Update effect (Tick effect deltaTime (effectState effect))
                                           (boundingBoxes r1) cols)\<rparr>],
                           snd (Update effect (Tick effect deltaTime (effectState effect))
                                  (boundingBoxes r1) cols)))
                       ([], cols0) (effects snapshot))) \<and>
         (noNullProvider (deviceProviders b) \<and>
          std_sort env (sortLambda env (deviceProviders b)) [] = Inr [] \<and>
          scenesAreDirty b \<and>
          \<not> (0 \<le> activeSceneIndex b \<and> activeSceneIndex b < int (length (scenes b))) \<longrightarrow>
           (\<exists>r1 calls. tick env b r deltaTime = Inr (r1, calls) \<and>
              renderScene r1 = emptyScene \<and> boundingBoxes r1 = [] \<and> devices r1 = [] \<and>
              colors r1 = [] \<and> length calls = length (deviceProviders b)))"
proof (intro conjI impI allI)
  show "sceneAt (scenes b) (activeSceneIndex b) =
           (if 0 \<le> activeSceneIndex b \<and> activeSceneIndex b < int (length (scenes b))
            then scenes b ! nat (activeSceneIndex b) else emptyScene)"
    by (rule sceneAt_in_range [OF int32 size])
next
  fix b1 calls
  assume "\<not> IsRunning b" and "Start b = Inr (b1, calls)"
  then show "\<exists>r0. thread b1 = Some r0 \<and> renderScene r0 = sceneAt (scenes b) (activeSceneIndex b)"
    by (auto simp: Start_def split: sum.splits)
next
  fix b1 calls r0 r1 calls1 and later :: "('b, 'c, 'e, 'p) Backend"
  assume "\<not> IsRunning b \<and> Start b = Inr (b1, calls) \<and> thread b1 = Some r0 \<and>
            \<not> scenesAreDirty later \<and> tick env later r0 deltaTime = Inr (r1, calls1)"
  then show "devicesInScene (renderScene r1)
                = devicesInScene (sceneAt (scenes b) (activeSceneIndex b))"
    using first_clean_tick(1) [of b b1 calls r0 later env deltaTime r1 calls1] by blast
next
  fix b1 calls r0 r1 calls1 and later :: "('b, 'c, 'e, 'p) Backend"
  assume "\<not> IsRunning b \<and> Start b = Inr (b1, calls) \<and> thread b1 = Some r0 \<and>
            \<not> scenesAreDirty later \<and> tick env later r0 deltaTime = Inr (r1, calls1)"
  then show "(effects (renderScene r1), colors r1) =
                foldl (\<lambda>(ran, cols) effect.
                         (ran @ [effect\<lparr>effectState :=
                                   fst (Update effect (Tick effect deltaTime (effectState effect))
                                          [] cols)\<rparr>],
                          snd (Update effect (Tick effect deltaTime (effectState effect))
                                 [] cols)))
                      ([], []) (effects (sceneAt (scenes b) (activeSceneIndex b)))"
    using first_clean_tick(2) [of b b1 calls r0 later env deltaTime r1 calls1] by blast
next
  fix r1 calls
  assume t: "tick env b r deltaTime = Inr (r1, calls)"
  from tick_renders [OF t] obtain r0 calls0 where
    pre: "(if scenesAreDirty b then refresh env b r else Inr (r, [])) = Inr (r0, calls0)"
    and devs: "devicesInScene (renderScene r1) = devicesInScene (renderScene r0)"
    and same: "boundingBoxes r1 = boundingBoxes r0" "devices r1 = devices r0"
    and ran: "effects (renderScene r1) =
             fst (runEffects deltaTime (boundingBoxes r0) (effects (renderScene r0)) (colors r0))"
      "colors r1 =
             snd (runEffects deltaTime (boundingBoxes r0) (effects (renderScene r0)) (colors r0))"
    by blast
  have fold: "(effects (renderScene r1), colors r1) =
                 foldl (\<lambda>(ran, cols) effect.
                          (ran @ [effect\<lparr>effectState :=
                                    fst (Update effect (Tick effect deltaTime (effectState effect))
                                           (boundingBoxes r1) cols)\<rparr>],
                           snd (Update effect (Tick effect deltaTime (effectState effect))
                                  (boundingBoxes r1) cols)))
                       ([], colors r0) (effects (renderScene r0))"
    unfolding runEffects_foldl ran same by simp
  have dirty: "std_sort env (sortLambda env (deviceProviders b))
                    (devicesInScene (sceneAt (scenes b) (activeSceneIndex b)))
                    = Inr (devicesInScene (renderScene r0)) \<and>
                  effects (renderScene r0) = effects (sceneAt (scenes b) (activeSceneIndex b)) \<and>
                  boundingBoxes r1 = concat (map boxesOf (devicesInScene (renderScene r0))) \<and>
                  colors r0 = resize (length (boundingBoxes r1)) (defaultColor env) (colors r)"
    if "scenesAreDirty b"
  proof -
    from pre that have "refresh env b r = Inr (r0, calls0)" by simp
    from refresh_result [OF this] show ?thesis
      using same by auto
  qed
  have clean: "renderScene r0 = renderScene r \<and> boundingBoxes r1 = boundingBoxes r \<and>
                  devices r1 = devices r \<and> colors r0 = colors r"
    if "\<not> scenesAreDirty b"
    using pre that same by simp
  show "\<exists>snapshot cols0.
               (scenesAreDirty b \<longrightarrow>
                  std_sort env (sortLambda env (deviceProviders b))
                    (devicesInScene (sceneAt (scenes b) (activeSceneIndex b)))
                    = Inr (devicesInScene snapshot) \<and>
                  effects snapshot = effects (sceneAt (scenes b) (activeSceneIndex b)) \<and>
                  boundingBoxes r1 = concat (map boxesOf (devicesInScene snapshot)) \<and>
                  cols0 = resize (length (boundingBoxes r1)) (defaultColor env) (colors r)) \<and>
               (\<not> scenesAreDirty b \<longrightarrow>
                  snapshot = renderScene r \<and> boundingBoxes r1 = boundingBoxes r \<and>
                  devices r1 = devices r \<and> cols0 = colors r) \<and>
               devicesInScene (renderScene r1) = devicesInScene snapshot \<and>
               (effects (renderScene r1), colors r1) =
                 foldl (\<lambda>(ran, cols) effect.
                          (ran @ [effect\<lparr>effectState :=
                                    fst (Update effect (Tick effect deltaTime (effectState effect))
                                           (boundingBoxes r1) cols)\<rparr>],
                           snd (Update effect (Tick effect deltaTime (effectState effect))
                                  (boundingBoxes r1) cols)))
                       ([], cols0) (effects snapshot)"
    using dirty clean devs fold
    by (intro exI [of _ "renderScene r0"] exI [of _ "colors r0"]) blast
next
  assume h: "noNullProvider (deviceProviders b) \<and>
          std_sort env (sortLambda env (deviceProviders b)) [] = Inr [] \<and>
          scenesAreDirty b \<and>
          \<not> (0 \<le> activeSceneIndex b \<and> activeSceneIndex b < int (length (scenes b)))"
  then have dirty: "scenesAreDirty b" and nonull: "noNullProvider (deviceProviders b)"
    and sort_nil: "std_sort env (sortLambda env (deviceProviders b)) [] = Inr []"
    by simp_all
  from h have chosen: "sceneAt (scenes b) (activeSceneIndex b) = emptyScene"
    using sceneAt_in_range [OF int32 size] by auto
  define r0 where "r0 = r\<lparr>renderScene := emptyScene,
       lightUpdates := partitionLoop ([] :: 'b Device list) (deviceProviders b) (lightUpdates r),
       colors := [], boundingBoxes := [], devices := []\<rparr>"
  have pre: "refresh env b r = Inr (r0, [])"
    by (simp add: refresh_def chosen emptyScene_def sort_nil r0_def resize_def)
  from dispatch_succeeds [OF nonull, of "lightUpdates r0"] obtain lu calls where
    d: "dispatch (deviceProviders b) (lightUpdates r0) = Inr (lu, calls)"
       "length calls = length (deviceProviders b)"
    by blast
  have "tick env b r deltaTime = Inr (r0\<lparr>lightUpdates := lu\<rparr>, calls)"
    using d(1) by (simp add: tick_def dirty pre r0_def emptyScene_def)
  with d(2) show "\<exists>r1 calls. tick env b r deltaTime = Inr (r1, calls) \<and>
              renderScene r1 = emptyScene \<and> boundingBoxes r1 = [] \<and> devices r1 = [] \<and>
              colors r1 = [] \<and> length calls = length (deviceProviders b)"
    by (intro exI [of _ "r0\<lparr>lightUpdates := lu\<rparr>"] exI [of _ calls]) (simp add: r0_def)
qed

lemma tick_far:
  "tick testEnv farBackend threadLocals0 0 =
     Inr (threadLocals0\<lparr>renderScene := emptyScene,
                       lightUpdates := [Hue \<mapsto> valueInitParams, OtherProvider 0 \<mapsto> valueInitParams]\<rparr>,
          [ProviderUpdate Hue valueInitParams, ProviderUpdate (OtherProvider 0) valueInitParams])"
  by (simp add: tick_defs sort_defs fixture_defs farBackend_def)

lemma tick_idle:
  "tick testEnv idleBackend threadLocals0 dt =
     Inr (renderedLocals,
          [DeviceQuery ''A-1'', DeviceQuery ''B-1'',
           ProviderUpdate Hue valueInitParams, ProviderUpdate (OtherProvider 0) valueInitParams])"
  by (simp add: tick_defs sort_defs fixture_defs renderedLocals_def)

lemma tick_calm:
  "tick testEnv calmBackend flatLocals dt =
     Inr (renderedLocals,
          [ProviderUpdate Hue valueInitParams, ProviderUpdate (OtherProvider 0) valueInitParams])"
  by (simp add: tick_defs fixture_defs calmBackend_def flatLocals_def renderedLocals_def)

lemma tick_started:
  "tick testEnv calmBackend threadLocals0 dt =
     Inr (threadLocals0\<lparr>lightUpdates := [Hue \<mapsto> valueInitParams, OtherProvider 0 \<mapsto> valueInitParams]\<rparr>,
          [ProviderUpdate Hue valueInitParams, ProviderUpdate (OtherProvider 0) valueInitParams])"
  by (simp add: tick_defs fixture_defs calmBackend_def)

lemma Start_idle:
  "Start idleBackend = Inr (runningBackend, [ProviderStart Hue, ProviderStart (OtherProvider 0)])"
  by (simp add: Start_def IsRunning_def fixture_defs runningBackend_def)

theorem C8_one_scene_per_tick_witness:
  "\<not> IsRunning idleBackend \<and>
   Start idleBackend = Inr (runningBackend, [ProviderStart Hue, ProviderStart (OtherProvider 0)]) \<and>
   thread runningBackend = Some threadLocals0 \<and>
   tick testEnv calmBackend threadLocals0 0 =
     Inr (threadLocals0\<lparr>lightUpdates := [Hue \<mapsto> valueInitParams, OtherProvider 0 \<mapsto> valueInitParams]\<rparr>,
          [ProviderUpdate Hue valueInitParams, ProviderUpdate (OtherProvider 0) valueInitParams]) \<and>
   (effects (renderScene threadLocals0), colors threadLocals0) = ([fillEffect 7], []) \<and>
   tick testEnv idleBackend threadLocals0 0 =
     Inr (renderedLocals,
          [DeviceQuery ''A-1'', DeviceQuery ''B-1'',
           ProviderUpdate Hue valueInitParams, ProviderUpdate (OtherProvider 0) valueInitParams]) \<and>
   effects (sceneAt (scenes idleBackend) (activeSceneIndex idleBackend)) = [fillEffect 7] \<and>
   \<not> scenesAreDirty calmBackend \<and>
   effects (sceneAt (scenes calmBackend) (activeSceneIndex calmBackend)) = [fillEffect 9] \<and>
   effects (renderScene flatLocals) = [fillEffect 7] \<and> colors flatLocals = [0, 0, 0] \<and>
   tick testEnv calmBackend flatLocals 0 =
     Inr (renderedLocals,
          [ProviderUpdate Hue valueInitParams, ProviderUpdate (OtherProvider 0) valueInitParams]) \<and>
   (effects (renderScene renderedLocals), colors renderedLocals) = ([fillEffect 7], [7, 7, 7]) \<and>
   sceneAt (scenes farBackend) (activeSceneIndex farBackend) = emptyScene \<and>
   tick testEnv farBackend threadLocals0 0 =
     Inr (threadLocals0\<lparr>renderScene := emptyScene,
                       lightUpdates := [Hue \<mapsto> valueInitParams, OtherProvider 0 \<mapsto> valueInitParams]\<rparr>,
          [ProviderUpdate Hue valueInitParams, ProviderUpdate (OtherProvider 0) valueInitParams]) \<and>
   length [ProviderUpdate Hue valueInitParams, ProviderUpdate (OtherProvider 0) valueInitParams]
     = length (deviceProviders farBackend)"
proof -
  have idle32: "- (2 ^ 31) \<le> activeSceneIndex idleBackend" "activeSceneIndex idleBackend < 2 ^ 31"
    and idle_size: "length (scenes idleBackend) < 2 ^ 63"
    and idle_dirty: "scenesAreDirty idleBackend"
    and idle_scene: "effects (sceneAt (scenes idleBackend) (activeSceneIndex idleBackend))
        = [fillEffect 7]"
    by (simp_all add: idleBackend_def sceneAt_def)
  have calm32: "- (2 ^ 31) \<le> activeSceneIndex calmBackend" "activeSceneIndex calmBackend < 2 ^ 31"
    and calm_size: "length (scenes calmBackend) < 2 ^ 63"
    and calm_clean: "\<not> scenesAreDirty calmBackend"
    and calm_scene: "effects (sceneAt (scenes calmBackend) (activeSceneIndex calmBackend))
        = [fillEffect 9]"
    by (simp_all add: calmBackend_def idleBackend_def sceneAt_def)
  have far32: "- (2 ^ 31) \<le> activeSceneIndex farBackend" "activeSceneIndex farBackend < 2 ^ 31"
    and far_size: "length (scenes farBackend) < 2 ^ 63"
    and far_dirty: "scenesAreDirty farBackend"
    and far_out: "\<not> (0 \<le> activeSceneIndex farBackend \<and>
      activeSceneIndex farBackend < int (length (scenes farBackend)))"
    by (simp_all add: farBackend_def idleBackend_def)
  have far_nonull: "noNullProvider (deviceProviders farBackend)"
    by (simp add: noNullProvider_def farBackend_def idleBackend_def twoProviders_def)
  have far_sort: "std_sort testEnv (sortLambda testEnv (deviceProviders farBackend)) [] = Inr []"
    by (simp add: testEnv_def libstdcxx_sort_def)
  have flat: "effects (renderScene flatLocals) = [fillEffect 7]" "colors flatLocals = [0, 0, 0]"
    "boundingBoxes flatLocals = [10, 20, 21]"
    by (simp_all add: flatLocals_def threadLocals0_def idleBackend_def sceneAt_def)
  have boxes: "boundingBoxes renderedLocals = [10, 20, 21]"
    by (simp add: renderedLocals_def)
  have start: "colors threadLocals0 = []" "defaultColor testEnv = 0"
    by (simp_all add: threadLocals0_def testEnv_def)
  from C8_one_scene_per_tick [OF idle32 idle_size,
      where env = testEnv and r = threadLocals0 and deltaTime = 0,
      THEN conjunct2, THEN conjunct2, THEN conjunct2, THEN conjunct1, rule_format, OF tick_idle]
    idle_dirty
  have first: "(effects (renderScene renderedLocals), colors renderedLocals)
      = ([fillEffect 7], [7, 7, 7])"
    by (auto simp: idle_scene boxes start resize_def fillEffect_def)
  from C8_one_scene_per_tick [OF calm32 calm_size,
      where env = testEnv and r = flatLocals and deltaTime = 0,
      THEN conjunct2, THEN conjunct2, THEN conjunct2, THEN conjunct1, rule_format, OF tick_calm]
    calm_clean
  have second: "(effects (renderScene renderedLocals), colors renderedLocals)
      = ([fillEffect 7], [7, 7, 7])"
    by (auto simp: flat boxes fillEffect_def)
  have idle_stopped: "\<not> IsRunning idleBackend"
    and started: "thread runningBackend = Some threadLocals0"
    by (simp_all add: IsRunning_def idleBackend_def runningBackend_def)
  from C8_one_scene_per_tick [OF idle32 idle_size,
      where env = testEnv and r = threadLocals0 and deltaTime = 0,
      THEN conjunct2, THEN conjunct2, THEN conjunct1, rule_format,
      of runningBackend "[ProviderStart Hue, ProviderStart (OtherProvider 0)]" threadLocals0
         calmBackend
         "threadLocals0\<lparr>lightUpdates := [Hue \<mapsto> valueInitParams, OtherProvider 0 \<mapsto> valueInitParams]\<rparr>"
         "[ProviderUpdate Hue valueInitParams, ProviderUpdate (OtherProvider 0) valueInitParams]"]
    idle_stopped Start_idle started calm_clean tick_started [of 0]
  have zeroth: "(effects (renderScene threadLocals0), colors threadLocals0) = ([fillEffect 7], [])"
    by (simp add: idle_scene fillEffect_def)
  from C8_one_scene_per_tick [OF far32 far_size,
      where env = testEnv and r = threadLocals0 and deltaTime = 0]
    far_out far_dirty far_nonull far_sort
  have third: "sceneAt (scenes farBackend) (activeSceneIndex farBackend) = emptyScene"
    and "length [ProviderUpdate Hue valueInitParams, ProviderUpdate (OtherProvider 0) valueInitParams]
     = length (deviceProviders farBackend)"
    unfolding tick_far by auto
  with zeroth first second idle_scene calm_clean calm_scene flat(1,2) tick_idle tick_calm tick_far
    idle_stopped Start_idle started tick_started
  show ?thesis
    by blast
qed

section \<open>One tick, and the next, on a scene with two providers\<close>

lemma tick_idle_again:
  "tick testEnv idleBackend renderedLocals dt =
     Inr (renderedLocals,
          [DeviceQuery ''A-1'', DeviceQuery ''B-1'',
           ProviderUpdate Hue valueInitParams, ProviderUpdate (OtherProvider 0) valueInitParams])"
  by (simp add: tick_defs sort_defs fixture_defs renderedLocals_def)

text \<open>
  C1. The scene of the claim: a device of provider A (\<open>Hue\<close>) with one box, a device of
  provider B with two, and an effect that paints every colour 7. After one tick
  \<open>colors\<close> is \<open>[7, 7, 7]\<close>. The partition scan computes a range of length 1 for A and
  of length 2 for B, but in a copy of the map's entry (line 101): what is dispatched to
  both providers is the value-initialised entry, whose cursors delimit no range.
\<close>

theorem C1_dispatch_on_two_providers:
  "tick testEnv idleBackend threadLocals0 (1 / 60) =
     Inr (renderedLocals,
          [DeviceQuery ''A-1'', DeviceQuery ''B-1'',
           ProviderUpdate Hue valueInitParams, ProviderUpdate (OtherProvider 0) valueInitParams]) \<and>
   colors renderedLocals = [7, 7, 7] \<and>
   rangeLength (colorsBegin valueInitParams) (colorsEnd valueInitParams) = None \<and>
   rangeLength (colorsBegin (partitionRange (devices renderedLocals) Hue valueInitParams))
               (colorsEnd (partitionRange (devices renderedLocals) Hue valueInitParams)) = Some 1 \<and>
   rangeLength (colorsBegin (partitionRange (devices renderedLocals) (OtherProvider 0) valueInitParams))
               (colorsEnd (partitionRange (devices renderedLocals) (OtherProvider 0) valueInitParams)) = Some 2"
proof -
  have "devices renderedLocals = [deviceA, deviceB, deviceB]" "colors renderedLocals = [7, 7, 7]"
    by (simp_all add: renderedLocals_def)
  moreover have "rangeLength (colorsBegin valueInitParams) (colorsEnd valueInitParams) = None"
    by (simp add: valueInitParams_def)
  ultimately show ?thesis
    by (simp add: tick_idle range_A range_B)
qed

text \<open>
  C6. Nothing in the thread clears \<^verbatim>\<open>scenesAreDirty\<close>. Two consecutive ticks on a
  backend whose flag was set once, with no write in between: the second tick queries
  every device for its boxes again, as the first did.
\<close>

theorem C6_second_tick_flattens_again:
  "scenesAreDirty idleBackend \<and>
   runTicks testEnv idleBackend threadLocals0 [1 / 60, 1 / 60] =
     Inr (renderedLocals,
          [[DeviceQuery ''A-1'', DeviceQuery ''B-1'',
            ProviderUpdate Hue valueInitParams, ProviderUpdate (OtherProvider 0) valueInitParams],
           [DeviceQuery ''A-1'', DeviceQuery ''B-1'',
            ProviderUpdate Hue valueInitParams, ProviderUpdate (OtherProvider 0) valueInitParams]])"
  by (simp add: tick_idle tick_idle_again) (simp add: idleBackend_def)

section \<open>The sort of the snapshot\<close>

text \<open>
  The library sort at work on numbers: its heapsort alone, its loop at depth limit 0,
  which hands over to the heapsort, and the whole sort on eighteen numbers, which
  partitions once.
\<close>

lemma heap_example:
  "partial_sort (\<lambda>a b. Inr (a < b)) [5, 3, 8, 1, 9, 2, 7 :: nat] 0 7 = Inr [1, 2, 3, 5, 7, 8, 9]"
  by (simp add: heap_defs Let_def)

lemma depth_example:
  "introsort_loop (\<lambda>a b. Inr (a < b))
     [17, 16, 15, 14, 13, 12, 11, 10, 9, 8, 7, 6, 5, 4, 3, 2, 1 :: nat] 0 17 0 =
   Inr [1, 2, 3, 4, 5, 6, 7, 8, 9, 10, 11, 12, 13, 14, 15, 16, 17]"
  by (simp add: heap_defs introsort_loop.simps Let_def)

lemma sort_example:
  "libstdcxx_sort (\<lambda>a b. Inr (a < b))
     [3, 17, 1, 16, 15, 14, 13, 12, 11, 10, 9, 8, 7, 6, 5, 4, 2, 18 :: nat] =
   Inr [1, 2, 3, 4, 5, 6, 7, 8, 9, 10, 11, 12, 13, 14, 15, 16, 17, 18]"
  by (simp add: sort_defs)

text \<open>
  What the sort of libstdc++ returns for a list of two elements, which is left to the
  final insertion sort; on such a list it meets the contract of \<^verbatim>\<open>std::sort\<close>.
\<close>

lemma libstdcxx_sort_pair:
  assumes "cmp y x = Inr smaller"
  shows "libstdcxx_sort cmp [x, y] = Inr (if smaller then [y, x] else [x, y])"
  using assms by (simp add: sort_defs)

lemma sortContract_pair:
  fixes x y :: 'a
  shows "sortContract libstdcxx_sort [x, y]"
  unfolding sortContract_def
proof (intro allI impI)
  fix cmp :: "'a \<Rightarrow> 'a \<Rightarrow> Fault + bool" and lt
  assume h: "(\<forall>a\<in>set [x, y]. \<forall>b\<in>set [x, y]. cmp a b = Inr (lt a b)) \<and>
             strictWeakOrder (set [x, y]) lt"
  then have yx: "cmp y x = Inr (lt y x)"
    by simp
  have asym: "\<not> lt x y" if "lt y x"
  proof
    assume "lt x y"
    with that h have "lt y y"
      unfolding strictWeakOrder_def by (metis insert_iff list.simps(15))
    with h show False
      unfolding strictWeakOrder_def by simp
  qed
  show "\<exists>ys. libstdcxx_sort cmp [x, y] = Inr ys \<and> mset ys = mset [x, y] \<and>
              sorted_wrt (\<lambda>a b. \<not> lt b a) ys"
    using asym by (cases "lt y x") (simp_all add: libstdcxx_sort_pair [of cmp y x, OF yx])
qed

lemma sorted_rank_contiguous:
  fixes rank :: "'a \<Rightarrow> nat"
  assumes sorted: "sorted (map rank ts)" and inj: "inj rank"
  shows "contiguous ts"
  unfolding contiguous_def
proof (intro allI impI)
  fix i j k
  assume h: "i < k \<and> k < j \<and> j < length ts \<and> ts ! i = ts ! j"
  have mono: "rank (ts ! a) \<le> rank (ts ! b)" if "a \<le> b" "b < length ts" for a b
    using sorted that by (auto simp: sorted_iff_nth_mono)
  have "rank (ts ! i) \<le> rank (ts ! k)"
    by (rule mono) (use h in auto)
  moreover have "rank (ts ! k) \<le> rank (ts ! j)"
    by (rule mono) (use h in auto)
  moreover have "rank (ts ! j) = rank (ts ! i)"
    using h by simp
  ultimately have "rank (ts ! k) = rank (ts ! i)" by linarith
  with inj show "ts ! k = ts ! i" by (simp add: inj_eq)
qed

lemma sorted_concat_replicate:
  fixes f :: "'a \<Rightarrow> nat"
  assumes "sorted (map f ys)" and that: "\<And>d. f' (g d) = f d"
  shows "sorted (map f' (concat (map (\<lambda>d. replicate (n d) (g d)) ys)))"
  using assms(1)
proof (induction ys)
  case Nil
  show ?case by simp
next
  case (Cons y ys)
  then have "sorted (map f' (concat (map (\<lambda>d. replicate (n d) (g d)) ys)))"
    and le: "\<forall>z\<in>set ys. f y \<le> f z"
    by simp_all
  then show ?case
    using that by (auto simp: sorted_append)
qed

lemma partitionRange_covers:
  assumes cont: "contiguous (map GetType devs)"
    and i: "i < length devs" "GetType (devs ! i) = t"
  shows "inRange i (devicesBegin (partitionRange devs t u0)) (devicesEnd (partitionRange devs t u0))"
proof -
  from partitionRange_result [of devs t u0] obtain bgn en where
    be: "bgn \<le> en" "en \<le> length devs"
    and eq: "partitionRange devs t u0 =
       u0\<lparr>boundingBoxesDirty := True, colorsDirty := True, devicesDirty := True,
          colorsBegin := At bgn, colorsEnd := At en,
          devicesBegin := At bgn, devicesEnd := At en,
          boundingBoxesBegin := At bgn, boundingBoxesEnd := At en\<rparr>"
    and before: "\<forall>j. j < bgn \<longrightarrow> GetType (devs ! j) \<noteq> t"
    and first: "bgn < length devs \<longrightarrow> GetType (devs ! bgn) = t"
    and last: "en < length devs \<longrightarrow> GetType (devs ! en) \<noteq> t"
    by blast
  have "bgn \<le> i"
  proof (rule ccontr)
    assume "\<not> bgn \<le> i"
    then have "i < bgn" by simp
    with before have "GetType (devs ! i) \<noteq> t" by blast
    with i(2) show False by simp
  qed
  moreover have "i < en"
  proof (rule ccontr)
    assume "\<not> i < en"
    then have "en \<le> i" by simp
    with i have en: "en < length devs" "GetType (devs ! en) \<noteq> t"
      using last by simp_all
    from \<open>bgn \<le> i\<close> i first have b: "GetType (devs ! bgn) = t" by simp
    with en(2) be(1) have "bgn < en" by (cases "bgn = en") auto
    moreover from en(2) i(2) \<open>en \<le> i\<close> have "en < i" by (cases "en = i") auto
    ultimately have "bgn < en \<and> en < i \<and> i < length (map GetType devs) \<and>
        map GetType devs ! bgn = map GetType devs ! i"
      using i b by simp
    with cont have "map GetType devs ! en = map GetType devs ! bgn"
      unfolding contiguous_def by blast
    moreover have "bgn < length devs"
      using \<open>bgn \<le> i\<close> i(1) by simp
    ultimately show False
      using en b by simp
  qed
  ultimately show ?thesis
    by (simp add: eq)
qed

text \<open>
  C4, as amended. The snapshot is sorted with \<^verbatim>\<open>std::sort\<close>, which promises a sorted
  permutation when the comparator is a strict weak ordering, and nothing about
  equivalent entries. When the comparator of lines 70 to 79 dereferences no null
  provider on the entries of the scene (it returns \<open>lt a c\<close> there), is a strict weak
  ordering on them and orders entries of different provider types by provider type,
  the dirty block returns, the sorted list is a permutation of the scene's entries, and
  the devices of each provider type form one block, in the sorted list and in the flat
  \<open>devices\<close> buffer: between two devices of one type there is no device of another.
  The range the partition scan computes for a type then holds the indices of the
  devices of that type and no other.
\<close>

theorem C4_sort_groups_providers:
  fixes rank :: "ProviderType \<Rightarrow> nat" and b :: "('b, 'c, 'e, 'p) Backend"
  assumes xs: "xs = devicesInScene (sceneAt (scenes b) (activeSceneIndex b))"
    and contract: "sortContract (std_sort env) xs"
    and total: "\<forall>a\<in>set xs. \<forall>c\<in>set xs. sortLambda env (deviceProviders b) a c = Inr (lt a c)"
    and swo: "strictWeakOrder (set xs) lt"
    and byType: "\<forall>a\<in>set xs. \<forall>c\<in>set xs. GetType (device a) \<noteq> GetType (device c) \<longrightarrow>
                   lt a c = (rank (GetType (device a)) < rank (GetType (device c)))"
    and inj: "inj rank"
  shows "\<exists>r1 calls. refresh env b r = Inr (r1, calls) \<and>
           std_sort env (sortLambda env (deviceProviders b)) xs
             = Inr (devicesInScene (renderScene r1)) \<and>
           mset (devicesInScene (renderScene r1)) = mset xs \<and>
           contiguous (map (\<lambda>d. GetType (device d)) (devicesInScene (renderScene r1))) \<and>
           devices r1 = concat (map (\<lambda>d. replicate (length (boxesOf d)) (device d))
                                  (devicesInScene (renderScene r1))) \<and>
           contiguous (map GetType (devices r1)) \<and>
           (\<forall>i t u0.
              inRange i (devicesBegin (partitionRange (devices r1) t u0))
                        (devicesEnd (partitionRange (devices r1) t u0))
              = (i < length (devices r1) \<and> GetType (devices r1 ! i) = t))"
proof -
  from contract total swo obtain ys where
    ys: "std_sort env (sortLambda env (deviceProviders b)) xs = Inr ys" "mset ys = mset xs"
        "sorted_wrt (\<lambda>a c. \<not> lt c a) ys"
    unfolding sortContract_def by blast
  have "set_mset (mset ys) = set_mset (mset xs)"
    using ys(2) by simp
  then have set: "set ys = set xs" by simp
  have "sorted_wrt (\<lambda>a c. rank (GetType (device a)) \<le> rank (GetType (device c))) ys"
  proof (rule sorted_wrt_mono_rel [OF _ ys(3)])
    fix a c
    assume ac: "a \<in> set ys" "c \<in> set ys" "\<not> lt c a"
    show "rank (GetType (device a)) \<le> rank (GetType (device c))"
    proof (cases "GetType (device a) = GetType (device c)")
      case True
      then show ?thesis by simp
    next
      case False
      then have "lt c a = (rank (GetType (device c)) < rank (GetType (device a)))"
        using byType ac(1,2) set by (metis (full_types))
      with ac(3) show ?thesis by simp
    qed
  qed
  then have sorted: "sorted (map (\<lambda>d. rank (GetType (device d))) ys)"
    by (simp add: sorted_map)
  then have c1: "contiguous (map (\<lambda>d. GetType (device d)) ys)"
    by (intro sorted_rank_contiguous [OF _ inj]) (simp add: comp_def)
  define devs where "devs = concat (map (\<lambda>d. replicate (length (boxesOf d)) (device d)) ys)"
  have "sorted (map (\<lambda>d. rank (GetType d)) devs)"
    unfolding devs_def by (rule sorted_concat_replicate [OF sorted]) simp
  then have c2: "contiguous (map GetType devs)"
    by (intro sorted_rank_contiguous [OF _ inj]) (simp add: comp_def)
  define r1 where "r1 = r\<lparr>renderScene := (sceneAt (scenes b) (activeSceneIndex b))\<lparr>devicesInScene := ys\<rparr>,
        lightUpdates := partitionLoop devs (deviceProviders b) (lightUpdates r),
        colors := resize (length (concat (map boxesOf ys))) (defaultColor env) (colors r),
        boundingBoxes := concat (map boxesOf ys),
        devices := devs\<rparr>"
  have "refresh env b r = Inr (r1, map (\<lambda>d. DeviceQuery (GetUniqueId (device d))) ys)"
    using ys(1) by (simp add: refresh_def Let_def flattenLoop_eq xs r1_def devs_def)
  moreover have "devicesInScene (renderScene r1) = ys" "devices r1 = devs"
    by (simp_all add: r1_def)
  moreover have "inRange i (devicesBegin (partitionRange devs t u0))
                          (devicesEnd (partitionRange devs t u0))
                 = (i < length devs \<and> GetType (devs ! i) = t)" for i t u0
    using partitionRange_covers [OF c2, of i t u0] partitionRange_inRange [of i devs t u0]
    by blast
  ultimately show ?thesis
    using ys(1,2) c1 c2 by (intro exI [of _ r1]) (simp add: devs_def)
qed

lemma inj_typeRank: "inj typeRank"
proof (rule injI)
  fix s t
  assume "typeRank s = typeRank t"
  then show "s = t" by (cases s; cases t) simp_all
qed

lemma strictWeakOrder_rankLess: "strictWeakOrder A rankLess"
  by (auto simp: strictWeakOrder_def rankLess_def)

lemma refresh_swapped:
  "refresh testEnv swappedBackend threadLocals0 =
     Inr (flatLocals, [DeviceQuery ''A-1'', DeviceQuery ''B-1''])"
  by (simp add: tick_defs sort_defs fixture_defs swappedBackend_def entryA_def entryB_def
        flatLocals_def)

theorem C4_sort_groups_providers_witness:
  "devicesInScene (sceneAt (scenes swappedBackend) (activeSceneIndex swappedBackend))
     = [entryB, entryA] \<and>
   refresh testEnv swappedBackend threadLocals0 =
     Inr (flatLocals, [DeviceQuery ''A-1'', DeviceQuery ''B-1'']) \<and>
   devicesInScene (renderScene flatLocals) = [entryA, entryB] \<and>
   devices flatLocals = [deviceA, deviceB, deviceB] \<and>
   contiguous (map GetType [deviceA, deviceB, deviceB]) \<and>
   inRange 2 (devicesBegin (partitionRange [deviceA, deviceB, deviceB] (OtherProvider 0) valueInitParams))
             (devicesEnd (partitionRange [deviceA, deviceB, deviceB] (OtherProvider 0) valueInitParams))"
proof -
  have xs: "[entryB, entryA] =
      devicesInScene (sceneAt (scenes swappedBackend) (activeSceneIndex swappedBackend))"
    by (simp add: swappedBackend_def idleBackend_def sceneAt_def)
  have contract: "sortContract (std_sort testEnv) [entryB, entryA]"
    by (simp add: testEnv_def sortContract_pair)
  have total: "\<forall>a\<in>set [entryB, entryA]. \<forall>c\<in>set [entryB, entryA].
      sortLambda testEnv (deviceProviders swappedBackend) a c = Inr (rankLess a c)"
    by (simp add: sortLambda_def rankLess_def compareByType_def fixture_defs swappedBackend_def
          entryA_def entryB_def)
  have byType: "\<forall>a\<in>set [entryB, entryA]. \<forall>c\<in>set [entryB, entryA].
      GetType (device a) \<noteq> GetType (device c) \<longrightarrow>
        rankLess a c = (typeRank (GetType (device a)) < typeRank (GetType (device c)))"
    by (simp add: rankLess_def)
  have third: "GetType ([deviceA, deviceB, deviceB] ! 2) = OtherProvider 0"
    by (simp add: deviceB_def fixedDevice_def)
  have flat: "devicesInScene (renderScene flatLocals) = [entryA, entryB]"
    "devices flatLocals = [deviceA, deviceB, deviceB]"
    by (simp_all add: flatLocals_def threadLocals0_def idleBackend_def sceneAt_def entryA_def
          entryB_def)
  from C4_sort_groups_providers [OF xs contract total strictWeakOrder_rankLess byType inj_typeRank,
      of threadLocals0]
  obtain r1 calls where
    r1: "refresh testEnv swappedBackend threadLocals0 = Inr (r1, calls)"
    and blocks: "contiguous (map GetType (devices r1))"
    and ranges: "\<forall>i t u0.
           inRange i (devicesBegin (partitionRange (devices r1) t u0))
                     (devicesEnd (partitionRange (devices r1) t u0))
           = (i < length (devices r1) \<and> GetType (devices r1 ! i) = t)"
    by blast
  from r1 have "r1 = flatLocals"
    unfolding refresh_swapped by simp
  with blocks ranges have "contiguous (map GetType [deviceA, deviceB, deviceB])"
    and "inRange 2 (devicesBegin (partitionRange [deviceA, deviceB, deviceB] (OtherProvider 0) valueInitParams))
             (devicesEnd (partitionRange [deviceA, deviceB, deviceB] (OtherProvider 0) valueInitParams))"
    using third by (simp_all add: flat(2))
  then show ?thesis
    using refresh_swapped xs flat by simp
qed

text \<open>
  The comparator of lines 70 to 79 on the entries of the scenes below: the first
  provider of \<open>crowdBackend\<close> orders no twin before another, that of \<open>rashBackend\<close> every
  twin before every other.
\<close>

lemma sortLambda_twins:
  "sortLambda testEnv (deviceProviders crowdBackend) (twin i) (twin j) = Inr False"
  by (simp add: sortLambda_def twin_def crowdBackend_def fixture_defs)

lemma sortLambda_rash:
  "sortLambda testEnv (deviceProviders rashBackend) (twin i) (twin j) = Inr True"
  by (simp add: sortLambda_def twin_def rashBackend_def crowdBackend_def fixture_defs)

lemma sort_crowd:
  "libstdcxx_sort (sortLambda testEnv (deviceProviders crowdBackend))
     [twin 0, twin 1, twin 2, twin 3, twin 4, twin 5, twin 6, twin 7, twin 8, twin 9,
      twin 10, twin 11, twin 12, twin 13, twin 14, twin 15, twin 16] =
   Inr [twin 8, twin 16, twin 15, twin 14, twin 13, twin 12, twin 11, twin 10, twin 9,
        twin 0, twin 7, twin 6, twin 5, twin 4, twin 3, twin 2, twin 1]"
  by (simp add: sort_defs sortLambda_twins)

lemma sort_rash:
  "libstdcxx_sort (sortLambda testEnv (deviceProviders rashBackend))
     [twin 0, twin 1, twin 2, twin 3, twin 4, twin 5, twin 6, twin 7, twin 8, twin 9,
      twin 10, twin 11, twin 12, twin 13, twin 14, twin 15, twin 16] = Inl OutOfRange"
  by (simp add: sort_defs sortLambda_rash)

lemma refresh_crowd:
  "map_sum id (devicesInScene \<circ> renderScene \<circ> fst) (refresh testEnv crowdBackend threadLocals0) =
     Inr [twin 8, twin 16, twin 15, twin 14, twin 13, twin 12, twin 11, twin 10, twin 9,
          twin 0, twin 7, twin 6, twin 5, twin 4, twin 3, twin 2, twin 1]"
proof -
  have "devicesInScene (sceneAt (scenes crowdBackend) (activeSceneIndex crowdBackend)) =
     [twin 0, twin 1, twin 2, twin 3, twin 4, twin 5, twin 6, twin 7, twin 8, twin 9,
      twin 10, twin 11, twin 12, twin 13, twin 14, twin 15, twin 16]"
    by (simp add: crowdBackend_def idleBackend_def sceneAt_def)
  moreover have "std_sort testEnv = libstdcxx_sort"
    by (simp add: testEnv_def)
  ultimately have "std_sort testEnv (sortLambda testEnv (deviceProviders crowdBackend))
       (devicesInScene (sceneAt (scenes crowdBackend) (activeSceneIndex crowdBackend))) =
     Inr [twin 8, twin 16, twin 15, twin 14, twin 13, twin 12, twin 11, twin 10, twin 9,
          twin 0, twin 7, twin 6, twin 5, twin 4, twin 3, twin 2, twin 1]"
    using sort_crowd by (simp only:)
  then show ?thesis
    by (simp add: refresh_def Let_def split_beta)
qed

lemma refresh_rash: "refresh testEnv rashBackend threadLocals0 = Inl OutOfRange"
proof -
  have "devicesInScene (sceneAt (scenes rashBackend) (activeSceneIndex rashBackend)) =
     [twin 0, twin 1, twin 2, twin 3, twin 4, twin 5, twin 6, twin 7, twin 8, twin 9,
      twin 10, twin 11, twin 12, twin 13, twin 14, twin 15, twin 16]"
    by (simp add: rashBackend_def crowdBackend_def idleBackend_def sceneAt_def)
  moreover have "std_sort testEnv = libstdcxx_sort"
    by (simp add: testEnv_def)
  ultimately have "std_sort testEnv (sortLambda testEnv (deviceProviders rashBackend))
       (devicesInScene (sceneAt (scenes rashBackend) (activeSceneIndex rashBackend))) =
     Inl OutOfRange"
    using sort_rash by (simp only:)
  then show ?thesis
    by (simp add: refresh_def Let_def)
qed

lemma refresh_stray:
  "refresh testEnv strayBackend threadLocals0 = Inl (NullProvider (OtherProvider 5))"
  by (simp add: tick_defs sort_defs fixture_defs strayBackend_def)

lemma refresh_mixed:
  "map_sum id (map GetType \<circ> devices \<circ> fst) (refresh levelEnv mixedBackend threadLocals0) =
     Inr [Hue, OtherProvider 0, OtherProvider 0, Hue]"
  by (simp add: tick_defs sort_defs fixture_defs levelEnv_def mixedBackend_def entryA_def
        entryB_def entryA2_def)

text \<open>
  C4, as stated, fails. In the scene of \<open>crowdBackend\<close> the seventeen entries are of one
  provider, whose comparator orders none before another; the scene lists \<open>twin 0\<close>
  first and \<open>twin 8\<close> ninth, and the sorted snapshot lists \<open>twin 8\<close> first and \<open>twin 0\<close>
  tenth: the sort is not stable. Nor does every scene come out in blocks. Two entries
  of a provider that is not registered make the comparator dereference a null pointer
  (\<open>strayBackend\<close>); under a provider comparator that is no strict weak ordering the
  sort runs off the list (\<open>rashBackend\<close>); and when \<^verbatim>\<open>compare(DevicePtr, DevicePtr)\<close> does
  not order by provider type, a device of the other provider stays between the two
  devices of the first (\<open>mixedBackend\<close> under \<open>levelEnv\<close>).
\<close>

theorem C4_sort_not_stable:
  "devicesInScene (sceneAt (scenes crowdBackend) (activeSceneIndex crowdBackend)) =
     [twin 0, twin 1, twin 2, twin 3, twin 4, twin 5, twin 6, twin 7, twin 8, twin 9,
      twin 10, twin 11, twin 12, twin 13, twin 14, twin 15, twin 16] \<and>
   sortLambda testEnv (deviceProviders crowdBackend) (twin 0) (twin 8) = Inr False \<and>
   sortLambda testEnv (deviceProviders crowdBackend) (twin 8) (twin 0) = Inr False \<and>
   GetUniqueId (device (twin 0)) = ''A-0'' \<and> GetUniqueId (device (twin 8)) = ''A-8'' \<and>
   map_sum id (devicesInScene \<circ> renderScene \<circ> fst) (refresh testEnv crowdBackend threadLocals0) =
     Inr [twin 8, twin 16, twin 15, twin 14, twin 13, twin 12, twin 11, twin 10, twin 9,
          twin 0, twin 7, twin 6, twin 5, twin 4, twin 3, twin 2, twin 1] \<and>
   refresh testEnv strayBackend threadLocals0 = Inl (NullProvider (OtherProvider 5)) \<and>
   refresh testEnv rashBackend threadLocals0 = Inl OutOfRange \<and>
   map (\<lambda>d. GetUniqueId (device d))
     (devicesInScene (sceneAt (scenes mixedBackend) (activeSceneIndex mixedBackend)))
     = [''A-1'', ''B-1'', ''A-2''] \<and>
   map_sum id (map GetType \<circ> devices \<circ> fst) (refresh levelEnv mixedBackend threadLocals0) =
     Inr [Hue, OtherProvider 0, OtherProvider 0, Hue]"
proof -
  have "devicesInScene (sceneAt (scenes crowdBackend) (activeSceneIndex crowdBackend)) =
     [twin 0, twin 1, twin 2, twin 3, twin 4, twin 5, twin 6, twin 7, twin 8, twin 9,
      twin 10, twin 11, twin 12, twin 13, twin 14, twin 15, twin 16]"
    by (simp add: crowdBackend_def idleBackend_def sceneAt_def)
  moreover have "GetUniqueId (device (twin 0)) = ''A-0''" "GetUniqueId (device (twin 8)) = ''A-8''"
    by (simp_all add: twin_def fixedDevice_def showNat.simps digitChar_def)
  moreover have "map (\<lambda>d. GetUniqueId (device d))
     (devicesInScene (sceneAt (scenes mixedBackend) (activeSceneIndex mixedBackend)))
     = [''A-1'', ''B-1'', ''A-2'']"
    by (simp add: mixedBackend_def idleBackend_def sceneAt_def entryA_def entryB_def entryA2_def
          deviceA_def deviceB_def fixedDevice_def)
  ultimately show ?thesis
    using sortLambda_twins [of 0 8] sortLambda_twins [of 8 0]
      refresh_crowd refresh_stray refresh_rash refresh_mixed
    by simp
qed

section \<open>Save and Load\<close>

lemma Save_saved: "Save savedBackend [] = Inr savedStore"
  by (simp add: save_load_defs settings_defs savedBackend_def placedA_def placedB_def
        fixture_defs savedStore_def)

lemma Load_saved: "Load testEnv freshBackend savedStore = Inr loadedBackend"
  by (simp add: save_load_defs settings_defs savedStore_def freshBackend_def loadedBackend_def
        fixture_defs)

lemma Load_ghost:
  "Load testEnv freshBackend ghostStore =
     Inr (freshBackend\<lparr>scenes := [\<lparr>devicesInScene = [], effects = [fillEffect 0]\<rparr>]\<rparr>)"
  by (simp add: save_load_defs settings_defs savedStore_def ghostStore_def freshBackend_def
        fixture_defs)

text \<open>
  The same store as text loads to the same backend: the sizes and the scalars are
  converted from their digits.
\<close>

lemma text_sizes: "toInt (QString ''1'') = 1" "toInt (QString ''2'') = 2"
  by (simp_all add: variant_defs)

lemma text_scalars:
  "toDouble (QString ''1'') = 1" "toDouble (QString ''3'') = 3" "toDouble (QString ''4'') = 4"
  "toDouble (QString ''5'') = 5" "toDouble (QString ''6'') = 6" "toDouble (QString ''7'') = 7"
  "toDouble (QString ''8'') = 8" "toDouble (QString ''9'') = 9"
  by (simp_all add: variant_defs)

lemma Load_text: "Load testEnv freshBackend textStore = Inr loadedBackend"
  by (simp add: save_load_defs settings_defs text_sizes text_scalars textStore_def
        freshBackend_def loadedBackend_def fixture_defs del: toInt.simps toDouble.simps)

text \<open>
  C2. A scene with two devices, both known to their providers, is saved into an empty
  store and loaded into a backend with the same providers and no scene. The loaded
  scene holds the first device only (the loop of lines 281 to 311 advances its counter
  twice per iteration), and its \<^verbatim>\<open>location.y\<close> is 8, the saved \<^verbatim>\<open>rotation.yaw\<close>, not
  the saved 2 (both fields use the key \<^verbatim>\<open>t.y\<close>).
\<close>

theorem C2_round_trip_loses_entries:
  "Save savedBackend [] = Inr savedStore \<and>
   Load testEnv freshBackend savedStore = Inr loadedBackend \<and>
   map transform (devicesInScene (scenes savedBackend ! 0)) = [transform placedA, transform placedB] \<and>
   map (\<lambda>d. GetUniqueId (device d)) (devicesInScene (scenes savedBackend ! 0)) = [''A-1'', ''B-1''] \<and>
   map (\<lambda>d. GetUniqueId (device d)) (devicesInScene (scenes loadedBackend ! 0)) = [''A-1''] \<and>
   vecY (location (transform placedA)) = 2 \<and>
   vecY (location (transform (devicesInScene (scenes loadedBackend ! 0) ! 0))) = 8"
  using Save_saved Load_saved
  by (simp add: savedBackend_def loadedBackend_def placedA_def deviceA_def fixedDevice_def
        placedB_def deviceB_def)

text \<open>
  C3. The stored scene has two device entries; the provider cannot resolve the id of
  the first and knows the device of the second. \<open>Load\<close> skips the first entry and never
  reads the second: the loaded scene has no device.
\<close>

theorem C3_skip_loses_next_entry:
  "map_of ghostStore ''scenes/1/devices/size'' = Some (QInt 2) \<and>
   map_of ghostStore ''scenes/1/devices/1/id'' = Some (QString ''A-9'') \<and>
   map_of ghostStore ''scenes/1/devices/2/id'' = Some (QString ''B-1'') \<and>
   GetDeviceFromUniqueId (plainProvider [deviceA]) [deviceA] ''A-9'' = None \<and>
   GetDeviceFromUniqueId (plainProvider [deviceB]) [deviceB] ''B-1'' = Some deviceB \<and>
   Load testEnv freshBackend ghostStore =
     Inr (freshBackend\<lparr>scenes := [\<lparr>devicesInScene = [], effects = [fillEffect 0]\<rparr>]\<rparr>)"
  using Load_ghost
  by (simp add: ghostStore_def savedStore_def plainProvider_def deviceA_def deviceB_def fixedDevice_def)

text \<open>
  C10. \<open>Save\<close> clears the store first: what it leaves behind does not depend on what
  the store held before the call. A key that the call does not write, such as
  \<^verbatim>\<open>stale/key\<close> below, is gone afterwards.
\<close>

theorem C10_save_forgets_the_store:
  "Save b store = Save b [] \<and>
   Save savedBackend [(''stale/key'', QInt 1)] = Inr savedStore \<and>
   map_of savedStore ''stale/key'' = None"
proof -
  have "Save b store = Save b []"
    by (simp add: Save_def clear_def)
  moreover have "Save savedBackend [(''stale/key'', QInt 1)] = Save savedBackend []"
    by (simp add: Save_def clear_def)
  moreover have "map_of savedStore ''stale/key'' = None"
    by (simp add: savedStore_def)
  ultimately show ?thesis
    by (simp add: Save_saved)
qed

end
